theory Spec2Isabelle
  imports Main "HOL-Library.Word"
begin

section \<open>The push endpoint of the notification server (gorush/server.go)\<close>

text \<open>
  The server's push endpoint binds a JSON request to a \<open>RequestPush\<close>, checks the
  number of notifications against the configured ceiling and hands an admitted batch to
  \<open>queueNotification\<close>. This theory embeds \<open>abortWithError\<close> and \<open>pushHandler\<close>
  as state transformers on the request context and verifies the admission behaviour.
\<close>

subsection \<open>Values, configuration and request context\<close>

type_synonym int64 = "64 word"

text \<open>
  A value stored in a \<open>gin.H\<close> (Go's \<open>map[string]interface{}\<close>). The handlers of this
  file store an integer status code, strings, and the two results of
  \<open>queueNotification\<close>, whose types are left open.
\<close>

datatype ('c, 'l) H_value = HInt int | HString string | HCounts 'c | HLogs 'l

type_synonym ('c, 'l) H = "string \<rightharpoonup> ('c, 'l) H_value"

text \<open>
  Modelled from the spec: the declaration of \<open>RequestPush\<close> is missing; a batch is "an
  ordered sequence of Notifications". \<open>pushHandler\<close> reads its field
  \<open>Notifications\<close> only (a slice), so the element type stays a parameter.
\<close>

record 'n RequestPush =
  Notifications :: "'n list"

text \<open>
  Modelled from the spec: the declaration of the configuration is missing;
  \<open>MaxNotification\<close> is the "admission ceiling". \<open>pushHandler\<close> compares
  \<open>PushConf.Core.MaxNotification\<close> with an \<open>int64\<close>, so it is a signed 64-bit value.
\<close>

record SectionCore =
  MaxNotification :: int64

text \<open>
  Modelled from the spec: the declaration of the type of \<open>PushConf\<close> is missing;
  \<open>pushHandler\<close> reads its section \<open>Core\<close> only.
\<close>

record ConfYaml =
  Core :: SectionCore

text \<open>
  The part of the world a handler can change: the responses written to the client
  (status code and JSON object), gin's abort flag, the debug lines given to \<open>LogAccess\<close>,
  and the state of the dispatch engine behind \<open>queueNotification\<close> (its queue and its
  Stats), of an arbitrary type \<open>'e\<close>.
\<close>

record ('c, 'l, 'e) Context =
  written :: "(int \<times> ('c, 'l) H) list"
  aborted :: bool
  access_debug :: "string list"
  engine :: 'e

text \<open>\<open>http.StatusOK\<close> and \<open>http.StatusBadRequest\<close>.\<close>

definition StatusOK :: int where
  "StatusOK = 200"

definition StatusBadRequest :: int where
  "StatusBadRequest = 400"

subsection \<open>gin's response primitives\<close>

text \<open>\<open>c.JSON(code, obj)\<close> writes one response with the given status and object.\<close>

definition JSON :: "int \<Rightarrow> ('c, 'l) H \<Rightarrow> ('c, 'l, 'e) Context \<Rightarrow> ('c, 'l, 'e) Context" where
  "JSON code obj c = c\<lparr>written := written c @ [(code, obj)]\<rparr>"

text \<open>\<open>c.AbortWithStatusJSON(code, obj)\<close> is \<open>c.Abort()\<close> followed by \<open>c.JSON(code, obj)\<close>.\<close>

definition AbortWithStatusJSON ::
  "int \<Rightarrow> ('c, 'l) H \<Rightarrow> ('c, 'l, 'e) Context \<Rightarrow> ('c, 'l, 'e) Context" where
  "AbortWithStatusJSON code obj c = JSON code obj (c\<lparr>aborted := True\<rparr>)"

text \<open>\<open>LogAccess.Debug(x)\<close> appends one line to the access log.\<close>

definition LogAccess_Debug :: "string \<Rightarrow> ('c, 'l, 'e) Context \<Rightarrow> ('c, 'l, 'e) Context" where
  "LogAccess_Debug line c = c\<lparr>access_debug := access_debug c @ [line]\<rparr>"

subsection \<open>Formatting with \<open>%d\<close>\<close>

fun decimal :: "nat \<Rightarrow> string" where
  "decimal n =
     (if n < 10 then [''0123456789'' ! n]
      else decimal (n div 10) @ [''0123456789'' ! (n mod 10)])"

declare decimal.simps [simp del]

definition Sprintf_d :: "int \<Rightarrow> string" where
  "Sprintf_d i = (if i < 0 then CHR ''-'' # decimal (nat (- i)) else decimal (nat i))"

text \<open>
  \<open>fmt.Sprintf("Number of notifications(%d) over limit(%d)", n, limit)\<close>, with \<open>n\<close> the
  \<open>int\<close> returned by \<open>len\<close> and \<open>limit\<close> the \<open>int64\<close> ceiling.
\<close>

definition over_limit_message :: "nat \<Rightarrow> int64 \<Rightarrow> string" where
  "over_limit_message n limit =
     ''Number of notifications('' @ Sprintf_d (int n) @ '') over limit('' @
       Sprintf_d (sint limit) @ '')''"

subsection \<open>The handlers\<close>

definition abortWithError ::
  "int \<Rightarrow> string \<Rightarrow> ('c, 'l, 'e) Context \<Rightarrow> ('c, 'l, 'e) Context" where
  "abortWithError code message c =
     AbortWithStatusJSON code [''code'' \<mapsto> HInt code, ''message'' \<mapsto> HString message] c"

text \<open>
  \<open>pushHandler\<close>. The binding \<open>c.ShouldBindWith(&form, binding.JSON)\<close> belongs to the
  gin library and \<open>queueNotification\<close> to another file of the package, so both are
  parameters: the binding maps the request body to an error text or to the bound form,
  and \<open>queueNotification\<close> maps the form and the engine state to its two results and
  the new engine state.

  \<open>len\<close> returns a non-negative \<open>int\<close> that never exceeds the largest \<open>int64\<close>, so
  the conversion \<open>int64(len(form.Notifications))\<close> is exact and the comparison is the one
  of the mathematical integers \<open>int (length \<dots>)\<close> and \<open>sint limit\<close>.
\<close>

definition pushHandler ::
  "('r \<Rightarrow> string + 'n RequestPush) \<Rightarrow>
   ('n RequestPush \<Rightarrow> 'e \<Rightarrow> ('c \<times> 'l) \<times> 'e) \<Rightarrow>
   ConfYaml \<Rightarrow> 'r \<Rightarrow> ('c, 'l, 'e) Context \<Rightarrow> ('c, 'l, 'e) Context" where
  "pushHandler ShouldBindWith queueNotification PushConf req c =
     (case ShouldBindWith req of
        Inl err \<Rightarrow>
          (let msg = ''Missing notifications field.'';
               c1 = LogAccess_Debug err c
           in abortWithError StatusBadRequest msg c1)
      | Inr form \<Rightarrow>
          if length (Notifications form) = 0 then
            (let msg = ''Notifications field is empty.'';
                 c1 = LogAccess_Debug msg c
             in abortWithError StatusBadRequest msg c1)
          else if int (length (Notifications form)) > sint (MaxNotification (Core PushConf)) then
            (let msg = over_limit_message (length (Notifications form))
                         (MaxNotification (Core PushConf));
                 c1 = LogAccess_Debug msg c
             in abortWithError StatusBadRequest msg c1)
          else
            (case queueNotification form (engine c) of
               ((counts, logs), e') \<Rightarrow>
                 JSON StatusOK
                   [''success'' \<mapsto> HString ''ok'',
                    ''counts'' \<mapsto> HCounts counts,
                    ''logs'' \<mapsto> HLogs logs]
                   (c\<lparr>engine := e'\<rparr>)))"

text \<open>The reason reported to the caller: the \<open>message\<close> field of the last response.\<close>

definition reported_message :: "('c, 'l, 'e) Context \<Rightarrow> string option" where
  "reported_message c =
     (if written c = [] then None
      else case snd (last (written c)) ''message'' of
             Some (HString m) \<Rightarrow> Some m
           | _ \<Rightarrow> None)"

text \<open>
  What the caller sees of a rejection: one more response, of status 400, whose object has
  the two fields \<open>code\<close> and \<open>message\<close>; the chain of handlers aborted; the engine
  untouched. And of an acceptance: one more response, of status 200, with \<open>success\<close>,
  \<open>counts\<close> and \<open>logs\<close>; the engine as \<open>queueNotification\<close> left it.
\<close>

definition rejected_with ::
  "('c, 'l, 'e) Context \<Rightarrow> string \<Rightarrow> ('c, 'l, 'e) Context \<Rightarrow> bool" where
  "rejected_with c m c' \<longleftrightarrow>
     written c' =
       written c @ [(400, [''code'' \<mapsto> HInt 400, ''message'' \<mapsto> HString m])] \<and>
     dom (snd (last (written c'))) = {''code'', ''message''} \<and>
     aborted c' \<and> engine c' = engine c"

definition accepted_with ::
  "('c, 'l, 'e) Context \<Rightarrow> ('c \<times> 'l) \<times> 'e \<Rightarrow> ('c, 'l, 'e) Context \<Rightarrow> bool" where
  "accepted_with c r c' \<longleftrightarrow>
     written c' =
       written c @
         [(200, [''success'' \<mapsto> HString ''ok'', ''counts'' \<mapsto> HCounts (fst (fst r)),
                 ''logs'' \<mapsto> HLogs (snd (fst r))])] \<and>
     aborted c' = aborted c \<and> engine c' = snd r"

text \<open>
  A stand-in for \<open>queueNotification\<close>, to run the handler on concrete requests: the engine
  state is the number of notifications taken so far, the counts are the size of the batch
  and the logs the batch itself.
\<close>

definition tally :: "'n RequestPush \<Rightarrow> int \<Rightarrow> (int \<times> 'n list) \<times> int" where
  "tally form e =
     ((int (length (Notifications form)), Notifications form),
      e + int (length (Notifications form)))"

text \<open>
  Requests for that stand-in: a batch of \<open>k\<close> notifications without content, a ceiling, and
  a context in which nothing has been written and seven notifications were taken.
\<close>

definition batch_of :: "nat \<Rightarrow> unit RequestPush" where
  "batch_of k = \<lparr>Notifications = replicate k ()\<rparr>"

definition ceiling_conf :: "int64 \<Rightarrow> ConfYaml" where
  "ceiling_conf limit = \<lparr>Core = \<lparr>MaxNotification = limit\<rparr>\<rparr>"

definition fresh_context :: "(int, unit list, int) Context" where
  "fresh_context = \<lparr>written = [], aborted = False, access_debug = [], engine = 7\<rparr>"

section \<open>The dispatch engine behind \<open>queueNotification\<close>\<close>

text \<open>
  The engine (notification records, provider adapters, retry policy, statistics, queue
  and workers) lives in files of the package other than the two given ones; only its
  caller \<open>pushHandler\<close> is at hand. The definitions of this section are therefore
  written from the specification, each marked as such.
\<close>

subsection \<open>Data model\<close>

text \<open>
  Modelled from the spec: the declaration of the platform enumeration is missing;
  "enumerated value identifying the target provider (e.g. iOS-style, Android-style, other)".
\<close>

datatype Platform = PlatformIOS | PlatformAndroid | PlatformOther nat

text \<open>
  Modelled from the spec: the payload declaration is missing; "platform-agnostic message
  fields (title, body, custom data mapping of string to arbitrary value)". The custom
  values are kept as text.
\<close>

record Payload =
  title :: string
  body :: string
  custom :: "(string \<times> string) list"

text \<open>
  Modelled from the spec: the notification record is missing; platform, ordered device
  tokens, payload and the mutable \<open>retry_count\<close>.
\<close>

record Notification =
  platform :: Platform
  tokens :: "string list"
  payload :: Payload
  retry_count :: nat

text \<open>
  Modelled from the spec: the failure reasons are missing; the spec names \<open>Timeout\<close>,
  \<open>UnknownPlatform\<close>, \<open>RetryExhausted\<close> and \<open>InternalError\<close>, and lists invalid
  token, rejected payload and exceeded quota as failures an adapter classifies.
\<close>

datatype Reason =
  Timeout | InvalidToken | RejectedPayload | QuotaExceeded
  | UnknownPlatform | RetryExhausted | InternalError

text \<open>
  Modelled from the spec: the outcome type is missing; "one of \<open>Success\<close>,
  \<open>RetryableFailure{reason}\<close>, \<open>PermanentFailure{reason}\<close>".
\<close>

datatype DeliveryOutcome = Success | RetryableFailure Reason | PermanentFailure Reason

text \<open>
  Modelled from the spec: the status of a log entry is missing; a terminal outcome is a
  success or a failure.
\<close>

datatype EntryStatus = Delivered | Failed

text \<open>
  Modelled from the spec: the log entry is missing;
  "\<open>{notification_index, token, status, error_message?}\<close>".
\<close>

record LogEntry =
  notification_index :: nat
  token :: string
  status :: EntryStatus
  error_message :: "string option"

text \<open>
  Modelled from the spec: the counts returned to the transport layer are missing;
  "\<open>counts: {success: int, failure: int}\<close>".
\<close>

record Counts =
  success :: int
  failure :: int

subsection \<open>Stats aggregator\<close>

text \<open>
  Modelled from the spec: the statistics store is missing; "process-wide running totals:
  total submitted, total succeeded, total failed". The optional breakdown by platform is
  left out.
\<close>

record Stats =
  submitted :: nat
  succeeded :: nat
  failed :: nat

text \<open>Modelled from the spec: \<open>IncrementSubmitted(n)\<close> of the aggregator's contract.\<close>

definition IncrementSubmitted :: "nat \<Rightarrow> Stats \<Rightarrow> Stats" where
  "IncrementSubmitted n s = s\<lparr>submitted := submitted s + n\<rparr>"

text \<open>Modelled from the spec: \<open>IncrementSucceeded(n)\<close> of the aggregator's contract.\<close>

definition IncrementSucceeded :: "nat \<Rightarrow> Stats \<Rightarrow> Stats" where
  "IncrementSucceeded n s = s\<lparr>succeeded := succeeded s + n\<rparr>"

text \<open>Modelled from the spec: \<open>IncrementFailed(n)\<close> of the aggregator's contract.\<close>

definition IncrementFailed :: "nat \<Rightarrow> Stats \<Rightarrow> Stats" where
  "IncrementFailed n s = s\<lparr>failed := failed s + n\<rparr>"

text \<open>
  Modelled from the spec: \<open>Snapshot() -> counts\<close> of the aggregator's contract, "a
  point-in-time read".
\<close>

definition Snapshot :: "Stats \<Rightarrow> nat \<times> nat \<times> nat" where
  "Snapshot s = (submitted s, succeeded s, failed s)"

text \<open>
  "Monotonically non-decreasing counters": the order in which every counter of the second
  Stats is at least the one of the first.
\<close>

definition stats_le :: "Stats \<Rightarrow> Stats \<Rightarrow> bool" where
  "stats_le s t \<longleftrightarrow>
     submitted s \<le> submitted t \<and> succeeded s \<le> succeeded t \<and> failed s \<le> failed t"

subsection \<open>Retry policy\<close>

text \<open>
  Modelled from the spec: the result of the retry policy is missing;
  "\<open>{Stop(final_outcome) | RetryAfter(delay)}\<close>".
\<close>

datatype Action = Stop DeliveryOutcome | RetryAfter nat

text \<open>
  Modelled from the spec: the retry configuration is missing; "\<open>MaxRetry\<close>, retry
  backoff parameters", the delay schedule being "a deterministic backoff function of
  \<open>retry_count\<close>", pluggable.
\<close>

record RetryConf =
  MaxRetry :: nat
  backoff :: "nat \<Rightarrow> nat"

text \<open>
  Modelled from the spec: the retry policy is missing;
  "\<open>NextAction(outcome, retry_count) -> {Stop(final_outcome) | RetryAfter(delay)}\<close>".
  \<open>Success\<close> and \<open>PermanentFailure\<close> stop; \<open>RetryableFailure\<close> retries after the
  delay of the backoff schedule while \<open>retry_count < MaxRetry\<close> and then stops as
  \<open>PermanentFailure{RetryExhausted}\<close>.
\<close>

definition NextAction :: "RetryConf \<Rightarrow> DeliveryOutcome \<Rightarrow> nat \<Rightarrow> Action" where
  "NextAction rc outcome count =
     (case outcome of
        Success \<Rightarrow> Stop Success
      | PermanentFailure r \<Rightarrow> Stop (PermanentFailure r)
      | RetryableFailure r \<Rightarrow>
          if count < MaxRetry rc then RetryAfter (backoff rc count)
          else Stop (PermanentFailure RetryExhausted))"

text \<open>
  Modelled from the spec: the default delay schedule is missing; "a deterministic
  backoff function of \<open>retry_count\<close> (e.g. bounded exponential)".
\<close>

definition bounded_exponential :: "nat \<Rightarrow> nat \<Rightarrow> nat \<Rightarrow> nat" where
  "bounded_exponential base cap count = min cap (base * 2 ^ count)"

subsection \<open>Provider adapters and engine state\<close>

text \<open>
  Modelled from the spec: the result of an adapter call is missing; a
  \<open>DeliveryOutcome\<close>, or "an adapter call that fails catastrophically / panics".
\<close>

datatype SendResult = Returned DeliveryOutcome | Crashed

text \<open>
  Modelled from the spec: the adapters are missing; "\<open>Send(token, payload) ->
  DeliveryOutcome\<close>", "the only components permitted to perform network I/O". The
  network is a state \<open>'w\<close> the adapter reads and changes.
\<close>

type_synonym 'w Adapter = "string \<Rightarrow> Payload \<Rightarrow> 'w \<Rightarrow> SendResult \<times> 'w"

text \<open>
  Modelled from the spec: the registry is missing; "a static registry keyed by platform
  enum".
\<close>

type_synonym 'w Registry = "Platform \<rightharpoonup> 'w Adapter"

text \<open>
  Modelled from the spec: the engine's shared state is missing; the Stats and the FIFO
  dispatch queue of jobs (a notification with its index in the batch), the network the
  adapters talk to, and two traces used to observe the workers: every adapter
  invocation made (platform and token) and every backoff delay waited.
\<close>

record 'w Engine =
  stats :: Stats
  queue :: "(nat \<times> Notification) list"
  network :: 'w
  invocations :: "(Platform \<times> string) list"
  delays :: "nat list"

subsection \<open>Workers\<close>

text \<open>
  Modelled from the spec: the attempt loop is missing. One attempt invokes the adapter
  once and applies the retry policy to the returned outcome; \<open>RetryAfter\<close> waits and
  retries "in-place by the same worker", with \<open>retry_count\<close> incremented. A crashed
  call is caught at the worker boundary and becomes \<open>PermanentFailure{InternalError}\<close>
  for the delivery in flight; the deliveries to the other tokens of the job are
  "independent" and go on.
\<close>

function attempt ::
  "RetryConf \<Rightarrow> 'w Adapter \<Rightarrow> Notification \<Rightarrow> string \<Rightarrow> 'w Engine \<Rightarrow>
   DeliveryOutcome \<times> 'w Engine" where
  "attempt rc send n tok e =
     (case send tok (payload n) (network e) of
        (res, w') \<Rightarrow>
          (let e1 = e\<lparr>network := w', invocations := invocations e @ [(platform n, tok)]\<rparr>
           in case res of
                Crashed \<Rightarrow> (PermanentFailure InternalError, e1)
              | Returned outcome \<Rightarrow>
                  (case NextAction rc outcome (retry_count n) of
                     Stop final \<Rightarrow> (final, e1)
                   | RetryAfter delay \<Rightarrow>
                       attempt rc send (n\<lparr>retry_count := Suc (retry_count n)\<rparr>) tok
                         (e1\<lparr>delays := delays e1 @ [delay]\<rparr>))))"
  by pat_completeness auto
termination
  by (relation "measure (\<lambda>(rc, send, n, tok, e). MaxRetry rc - retry_count n)")
     (auto simp: NextAction_def split: DeliveryOutcome.splits if_splits)

declare attempt.simps [simp del]

text \<open>
  Modelled from the spec: one delivery, of one (notification, token) pair; its
  \<open>retry_count\<close> "starts at 0".
\<close>

definition deliver ::
  "RetryConf \<Rightarrow> 'w Adapter \<Rightarrow> Notification \<Rightarrow> string \<Rightarrow> 'w Engine \<Rightarrow>
   DeliveryOutcome \<times> 'w Engine" where
  "deliver rc send n tok e = attempt rc send (n\<lparr>retry_count := 0\<rparr>) tok e"

text \<open>
  Modelled from the spec: the text of a failure in a log entry; the spec fixes no
  wording, the reason's name is used.
\<close>

fun reason_text :: "Reason \<Rightarrow> string" where
  "reason_text Timeout = ''Timeout''"
| "reason_text InvalidToken = ''InvalidToken''"
| "reason_text RejectedPayload = ''RejectedPayload''"
| "reason_text QuotaExceeded = ''QuotaExceeded''"
| "reason_text UnknownPlatform = ''UnknownPlatform''"
| "reason_text RetryExhausted = ''RetryExhausted''"
| "reason_text InternalError = ''InternalError''"

text \<open>
  Modelled from the spec: "folding a terminal outcome into Stats and into the Batch's
  LogEntries": one counter incremented by one and one log entry, per terminal outcome.
\<close>

fun fold_outcome ::
  "nat \<Rightarrow> string \<Rightarrow> DeliveryOutcome \<Rightarrow> 'w Engine \<Rightarrow> LogEntry \<times> 'w Engine" where
  "fold_outcome idx tok Success e =
     (\<lparr>notification_index = idx, token = tok, status = Delivered, error_message = None\<rparr>,
      e\<lparr>stats := IncrementSucceeded 1 (stats e)\<rparr>)"
| "fold_outcome idx tok (PermanentFailure r) e =
     (\<lparr>notification_index = idx, token = tok, status = Failed,
       error_message = Some (reason_text r)\<rparr>,
      e\<lparr>stats := IncrementFailed 1 (stats e)\<rparr>)"
| "fold_outcome idx tok (RetryableFailure r) e =
     (\<lparr>notification_index = idx, token = tok, status = Failed,
       error_message = Some (reason_text r)\<rparr>,
      e\<lparr>stats := IncrementFailed 1 (stats e)\<rparr>)"

text \<open>
  Modelled from the spec: a job of an unregistered platform; a
  \<open>PermanentFailure{UnknownPlatform}\<close> is recorded for each of its tokens and no adapter
  is invoked.
\<close>

fun record_unknown :: "nat \<Rightarrow> string list \<Rightarrow> 'w Engine \<Rightarrow> LogEntry list \<times> 'w Engine" where
  "record_unknown idx [] e = ([], e)"
| "record_unknown idx (tok # toks) e =
     (case fold_outcome idx tok (PermanentFailure UnknownPlatform) e of
        (entry, e1) \<Rightarrow>
          (case record_unknown idx toks e1 of
             (entries, e2) \<Rightarrow> (entry # entries, e2)))"

text \<open>
  Modelled from the spec: a job of a registered platform; "invoke the adapter once per
  token in the job's token list", each token an independent delivery whose terminal
  outcome is folded.
\<close>

fun send_all ::
  "RetryConf \<Rightarrow> 'w Adapter \<Rightarrow> nat \<Rightarrow> Notification \<Rightarrow> string list \<Rightarrow> 'w Engine \<Rightarrow>
   LogEntry list \<times> 'w Engine" where
  "send_all rc send idx n [] e = ([], e)"
| "send_all rc send idx n (tok # toks) e =
     (case deliver rc send n tok e of
        (outcome, e1) \<Rightarrow>
          (case fold_outcome idx tok outcome e1 of
             (entry, e2) \<Rightarrow>
               (case send_all rc send idx n toks e2 of
                  (entries, e3) \<Rightarrow> (entry # entries, e3))))"

text \<open>
  Modelled from the spec: what a worker does with one dequeued job; "resolve the
  Provider Adapter for \<open>job.platform\<close>".
\<close>

definition worker ::
  "RetryConf \<Rightarrow> 'w Registry \<Rightarrow> nat \<times> Notification \<Rightarrow> 'w Engine \<Rightarrow>
   LogEntry list \<times> 'w Engine" where
  "worker rc registry job e =
     (case job of
        (idx, n) \<Rightarrow>
          (case registry (platform n) of
             None \<Rightarrow> record_unknown idx (tokens n) e
           | Some send \<Rightarrow> send_all rc send idx n (tokens n) e))"

text \<open>No worker step touches the dispatch queue; the worker loop below relies on it to end.\<close>

lemma queue_attempt: "queue (snd (attempt rc send n tok e)) = queue e"
proof (induction rc send n tok e rule: attempt.induct)
  case (1 rc send n tok e)
  show ?case
  proof (cases "send tok (payload n) (network e)")
    case (Pair res w')
    show ?thesis
    proof (cases res)
      case Crashed
      with Pair show ?thesis by (subst attempt.simps) simp
    next
      case (Returned outcome)
      show ?thesis
      proof (cases "NextAction rc outcome (retry_count n)")
        case (Stop final)
        with Pair Returned show ?thesis by (subst attempt.simps) simp
      next
        case (RetryAfter delay)
        have "queue (snd (attempt rc send (n\<lparr>retry_count := Suc (retry_count n)\<rparr>) tok
                 (e\<lparr>network := w', invocations := invocations e @ [(platform n, tok)],
                    delays := delays e @ [delay]\<rparr>))) = queue e"
          using "1" [OF Pair [symmetric] refl Returned RetryAfter] by simp
        with Pair Returned RetryAfter show ?thesis by (subst attempt.simps) simp
      qed
    qed
  qed
qed

lemma queue_fold_outcome: "queue (snd (fold_outcome idx tok outcome e)) = queue e"
  by (cases outcome) simp_all

lemma queue_record_unknown: "queue (snd (record_unknown idx toks e)) = queue e"
proof (induction toks arbitrary: e)
  case Nil
  show ?case by simp
next
  case (Cons tok toks)
  show ?case
    using Cons [of "e\<lparr>stats := IncrementFailed 1 (stats e)\<rparr>"]
    by (simp add: case_prod_beta)
qed

lemma queue_send_all: "queue (snd (send_all rc send idx n toks e)) = queue e"
proof (induction toks arbitrary: e)
  case Nil
  show ?case by simp
next
  case (Cons tok toks)
  obtain outcome e1 where d: "deliver rc send n tok e = (outcome, e1)"
    by (cases "deliver rc send n tok e")
  obtain entry e2 where f: "fold_outcome idx tok outcome e1 = (entry, e2)"
    by (cases "fold_outcome idx tok outcome e1")
  have "queue e1 = queue e"
    using queue_attempt [of rc send "n\<lparr>retry_count := 0\<rparr>" tok e] d
    by (simp add: deliver_def)
  moreover have "queue e2 = queue e1"
    using queue_fold_outcome [of idx tok outcome e1] f by simp
  ultimately show ?case
    using Cons [of e2] d f by (simp add: case_prod_beta)
qed

lemma queue_worker: "queue (snd (worker rc registry job e)) = queue e"
  by (simp add: worker_def queue_record_unknown queue_send_all
           split: prod.splits option.splits)

text \<open>
  Modelled from the spec: the worker loop; "dequeue one job", process it, "and
  continue", here until the queue is empty. The workers of the pool are run one job at
  a time, in queue order.
\<close>

function drain ::
  "RetryConf \<Rightarrow> 'w Registry \<Rightarrow> 'w Engine \<Rightarrow> LogEntry list \<times> 'w Engine" where
  "drain rc registry e =
     (case queue e of
        [] \<Rightarrow> ([], e)
      | job # rest \<Rightarrow>
          (case worker rc registry job (e\<lparr>queue := rest\<rparr>) of
             (entries, e1) \<Rightarrow>
               (case drain rc registry e1 of
                  (later, e2) \<Rightarrow> (entries @ later, e2))))"
  by pat_completeness auto
termination
proof (relation "measure (\<lambda>(rc, registry, e). length (queue e))")
  show "wf (measure (\<lambda>(rc, registry, e). length (queue e)))"
    by simp
next
  fix rc :: RetryConf and registry :: "'w Registry" and e :: "'w Engine"
    and job rest entries e1
  assume q: "queue e = job # rest"
    and w: "(entries, e1) = worker rc registry job (e\<lparr>queue := rest\<rparr>)"
  have "queue e1 = rest"
    using queue_worker [of rc registry job "e\<lparr>queue := rest\<rparr>"] w [symmetric] by simp
  with q show "((rc, registry, e1), (rc, registry, e)) \<in>
      measure (\<lambda>(rc, registry, e). length (queue e))"
    by simp
qed

declare drain.simps [simp del]

subsection \<open>The engine's entry point\<close>

text \<open>
  Modelled from the spec: pushing one notification of an accepted batch onto the
  dispatch queue. What happens at a full queue is "a configuration choice" of the spec
  (block the caller or fail fast); the model takes the blocking one, under which every
  item of an accepted batch gets onto the queue, and so carries no capacity.
\<close>

definition enqueue :: "nat \<times> Notification \<Rightarrow> 'w Engine \<Rightarrow> 'w Engine" where
  "enqueue job e = e\<lparr>queue := queue e @ [job]\<rparr>"

text \<open>The number of device tokens of a batch: "total tokens across all notifications".\<close>

definition total_tokens :: "Notification list \<Rightarrow> nat" where
  "total_tokens ns = sum_list (map (\<lambda>n. length (tokens n)) ns)"

text \<open>
  Modelled from the spec: \<open>queueNotification\<close> is missing; "synchronous call that
  \<dots> enqueues all accepted items, and returns once a summary is available", in the
  fully synchronous variant (a): every notification of the batch is pushed onto the
  queue with its index, the tokens are counted as submitted, the queue is drained, the
  log entries are "reassembled keyed by \<open>notification_index\<close>" (a stable sort) and
  counted. The admission checks are those of \<open>pushHandler\<close>, made before the call.
\<close>

definition queueNotification ::
  "RetryConf \<Rightarrow> 'w Registry \<Rightarrow> Notification RequestPush \<Rightarrow> 'w Engine \<Rightarrow>
   (Counts \<times> LogEntry list) \<times> 'w Engine" where
  "queueNotification rc registry form e =
     (let e1 = fold enqueue (enumerate 0 (Notifications form)) e;
          e2 = e1\<lparr>stats := IncrementSubmitted (total_tokens (Notifications form)) (stats e1)\<rparr>
      in case drain rc registry e2 of
           (entries, e3) \<Rightarrow>
             (let logs = sort_key notification_index entries;
                  counts = \<lparr>success = int (length (filter (\<lambda>l. status l = Delivered) logs)),
                            failure = int (length (filter (\<lambda>l. status l = Failed) logs))\<rparr>
              in ((counts, logs), e3)))"

subsection \<open>Observations on logs and Stats\<close>

text \<open>
  The (notification index, token) pairs of a list of log entries, of a job and of a whole
  batch in submission order; the number of entries of a status; and the statement that a
  Stats value is another one with a list of entries folded in: \<open>submitted\<close> as it was,
  \<open>succeeded\<close> and \<open>failed\<close> raised by the delivered and the failed entries.
\<close>

definition entry_keys :: "LogEntry list \<Rightarrow> (nat \<times> string) list" where
  "entry_keys entries = map (\<lambda>l. (notification_index l, token l)) entries"

definition job_keys :: "nat \<times> Notification \<Rightarrow> (nat \<times> string) list" where
  "job_keys job = map (Pair (fst job)) (tokens (snd job))"


definition count_status :: "EntryStatus \<Rightarrow> LogEntry list \<Rightarrow> nat" where
  "count_status st entries = length (filter (\<lambda>l. status l = st) entries)"

definition folded :: "Stats \<Rightarrow> LogEntry list \<Rightarrow> Stats \<Rightarrow> bool" where
  "folded s entries s' \<longleftrightarrow>
     submitted s' = submitted s \<and>
     succeeded s' = succeeded s + count_status Delivered entries \<and>
     failed s' = failed s + count_status Failed entries"

text \<open>
  Two adapters to run the engine on concrete batches; their network state is the number
  of calls received. The first always succeeds, the second always times out.
\<close>

definition reliable :: "nat Adapter" where
  "reliable tok pl w = (Returned Success, Suc w)"

definition unreachable :: "nat Adapter" where
  "unreachable tok pl w = (Returned (RetryableFailure Timeout), Suc w)"

text \<open>
  A retry configuration, a registry, the batch of the specification's example scenario
  (an iOS notification with two tokens and a notification of an unregistered platform
  with one), a notification for the adapter that always times out, and an idle engine.
\<close>

definition sample_conf :: RetryConf where
  "sample_conf = \<lparr>MaxRetry = 2, backoff = bounded_exponential 1 8\<rparr>"

definition sample_registry :: "nat Registry" where
  "sample_registry = [PlatformIOS \<mapsto> reliable, PlatformAndroid \<mapsto> unreachable]"

definition sample_payload :: Payload where
  "sample_payload = \<lparr>title = ''hello'', body = ''world'', custom = []\<rparr>"

definition ios_notification :: Notification where
  "ios_notification =
     \<lparr>platform = PlatformIOS, tokens = [''a'', ''b''], payload = sample_payload,
      retry_count = 0\<rparr>"

definition stray_notification :: Notification where
  "stray_notification =
     \<lparr>platform = PlatformOther 7, tokens = [''c''], payload = sample_payload,
      retry_count = 0\<rparr>"

definition android_notification :: Notification where
  "android_notification =
     \<lparr>platform = PlatformAndroid, tokens = [''d''], payload = sample_payload,
      retry_count = 0\<rparr>"

definition sample_batch :: "Notification RequestPush" where
  "sample_batch = \<lparr>Notifications = [ios_notification, stray_notification]\<rparr>"

definition idle_engine :: "nat Engine" where
  "idle_engine =
     \<lparr>stats = \<lparr>submitted = 10, succeeded = 6, failed = 4\<rparr>, queue = [], network = 0,
      invocations = [], delays = []\<rparr>"

section \<open>Verification of the admission gate\<close>

subsection \<open>The four paths of \<open>pushHandler\<close>\<close>

lemma pushHandler_malformed:
  "ShouldBindWith req = Inl err \<Longrightarrow>
   pushHandler ShouldBindWith qn PushConf req c =
     abortWithError StatusBadRequest ''Missing notifications field.'' (LogAccess_Debug err c)"
  by (simp add: pushHandler_def Let_def)

lemma pushHandler_empty:
  "ShouldBindWith req = Inr form \<Longrightarrow> Notifications form = [] \<Longrightarrow>
   pushHandler ShouldBindWith qn PushConf req c =
     abortWithError StatusBadRequest ''Notifications field is empty.''
       (LogAccess_Debug ''Notifications field is empty.'' c)"
  by (simp add: pushHandler_def Let_def)

lemma pushHandler_over_limit:
  "ShouldBindWith req = Inr form \<Longrightarrow> Notifications form \<noteq> [] \<Longrightarrow>
   int (length (Notifications form)) > sint (MaxNotification (Core PushConf)) \<Longrightarrow>
   pushHandler ShouldBindWith qn PushConf req c =
     abortWithError StatusBadRequest
       (over_limit_message (length (Notifications form)) (MaxNotification (Core PushConf)))
       (LogAccess_Debug
         (over_limit_message (length (Notifications form)) (MaxNotification (Core PushConf))) c)"
  by (simp add: pushHandler_def Let_def)

lemma pushHandler_accepted:
  "ShouldBindWith req = Inr form \<Longrightarrow> Notifications form \<noteq> [] \<Longrightarrow>
   int (length (Notifications form)) \<le> sint (MaxNotification (Core PushConf)) \<Longrightarrow>
   pushHandler ShouldBindWith qn PushConf req c =
     JSON StatusOK
       [''success'' \<mapsto> HString ''ok'',
        ''counts'' \<mapsto> HCounts (fst (fst (qn form (engine c)))),
        ''logs'' \<mapsto> HLogs (snd (fst (qn form (engine c))))]
       (c\<lparr>engine := snd (qn form (engine c))\<rparr>)"
  by (simp add: pushHandler_def case_prod_beta)

lemma engine_abortWithError [simp]: "engine (abortWithError code m c) = engine c"
  by (simp add: abortWithError_def AbortWithStatusJSON_def JSON_def)

lemma engine_LogAccess_Debug [simp]: "engine (LogAccess_Debug line c) = engine c"
  by (simp add: LogAccess_Debug_def)

lemma aborted_abortWithError [simp]: "aborted (abortWithError code m c)"
  by (simp add: abortWithError_def AbortWithStatusJSON_def JSON_def)

lemma written_abortWithError:
  "written (abortWithError code m c) =
     written c @ [(code, [''code'' \<mapsto> HInt code, ''message'' \<mapsto> HString m])]"
  by (simp add: abortWithError_def AbortWithStatusJSON_def JSON_def)

lemma written_LogAccess_Debug [simp]: "written (LogAccess_Debug line c) = written c"
  by (simp add: LogAccess_Debug_def)

lemma reported_message_abortWithError [simp]:
  "reported_message (abortWithError code m c) = Some m"
  by (simp add: reported_message_def written_abortWithError)

lemma over_limit_not_missing:
  "over_limit_message n limit \<noteq> ''Missing notifications field.''"
  by (simp add: over_limit_message_def)

lemma over_limit_not_empty:
  "over_limit_message n limit \<noteq> ''Notifications field is empty.''"
  by (simp add: over_limit_message_def)

lemma dom_error_body: "dom [''code'' \<mapsto> a, ''message'' \<mapsto> b] = {''code'', ''message''}"
  by auto

lemma rejected_with_abortWithError:
  "rejected_with c m (abortWithError StatusBadRequest m (LogAccess_Debug line c))"
  by (auto simp: rejected_with_def written_abortWithError StatusBadRequest_def)

lemma accepted_with_JSON:
  "accepted_with c r
     (JSON StatusOK
        [''success'' \<mapsto> HString ''ok'', ''counts'' \<mapsto> HCounts (fst (fst r)),
         ''logs'' \<mapsto> HLogs (snd (fst r))]
        (c\<lparr>engine := snd r\<rparr>))"
  by (simp add: accepted_with_def JSON_def StatusOK_def)

lemma over_limit_101_100:
  "over_limit_message 101 100 = ''Number of notifications(101) over limit(100)''"
  by (simp add: over_limit_message_def Sprintf_d_def decimal.simps)

subsection \<open>Batches over the limit\<close>




subsection \<open>Empty batches and malformed bodies\<close>

text \<open>
  C2: a body that does not bind and an empty batch are rejected by the handler without
  reaching \<open>queueNotification\<close>; the malformed, the empty and the over-limit rejection
  each report their own reason, the three texts are pairwise different whatever the
  numbers in the third, and each rejection leaves the engine state (queue and Stats) as
  it was.
\<close>

theorem empty_and_malformed_rejected:
  "(ShouldBindWith req1 = Inl err \<longrightarrow>
      pushHandler ShouldBindWith qn PushConf req1 c =
        abortWithError StatusBadRequest ''Missing notifications field.''
          (LogAccess_Debug err c) \<and>
      reported_message (pushHandler ShouldBindWith qn PushConf req1 c) =
        Some ''Missing notifications field.'' \<and>
      engine (pushHandler ShouldBindWith qn PushConf req1 c) = engine c) \<and>
   (ShouldBindWith req2 = Inr form2 \<and> Notifications form2 = [] \<longrightarrow>
      pushHandler ShouldBindWith qn PushConf req2 c =
        abortWithError StatusBadRequest ''Notifications field is empty.''
          (LogAccess_Debug ''Notifications field is empty.'' c) \<and>
      reported_message (pushHandler ShouldBindWith qn PushConf req2 c) =
        Some ''Notifications field is empty.'' \<and>
      engine (pushHandler ShouldBindWith qn PushConf req2 c) = engine c) \<and>
   (ShouldBindWith req3 = Inr form3 \<and> Notifications form3 \<noteq> [] \<and>
    int (length (Notifications form3)) > sint (MaxNotification (Core PushConf)) \<longrightarrow>
      reported_message (pushHandler ShouldBindWith qn PushConf req3 c) =
        Some (over_limit_message (length (Notifications form3))
                (MaxNotification (Core PushConf))) \<and>
      engine (pushHandler ShouldBindWith qn PushConf req3 c) = engine c) \<and>
   distinct [''Missing notifications field.'', ''Notifications field is empty.'',
             over_limit_message n limit]"
proof (intro conjI impI)
  assume "ShouldBindWith req1 = Inl err"
  then show "pushHandler ShouldBindWith qn PushConf req1 c =
        abortWithError StatusBadRequest ''Missing notifications field.''
          (LogAccess_Debug err c)"
    by (rule pushHandler_malformed)
  then show "reported_message (pushHandler ShouldBindWith qn PushConf req1 c) =
        Some ''Missing notifications field.''"
    and "engine (pushHandler ShouldBindWith qn PushConf req1 c) = engine c"
    by simp_all
next
  assume "ShouldBindWith req2 = Inr form2 \<and> Notifications form2 = []"
  then show "pushHandler ShouldBindWith qn PushConf req2 c =
        abortWithError StatusBadRequest ''Notifications field is empty.''
          (LogAccess_Debug ''Notifications field is empty.'' c)"
    by (simp add: pushHandler_empty)
  then show "reported_message (pushHandler ShouldBindWith qn PushConf req2 c) =
        Some ''Notifications field is empty.''"
    and "engine (pushHandler ShouldBindWith qn PushConf req2 c) = engine c"
    by simp_all
next
  assume "ShouldBindWith req3 = Inr form3 \<and> Notifications form3 \<noteq> [] \<and>
    int (length (Notifications form3)) > sint (MaxNotification (Core PushConf))"
  then have "pushHandler ShouldBindWith qn PushConf req3 c =
     abortWithError StatusBadRequest
       (over_limit_message (length (Notifications form3)) (MaxNotification (Core PushConf)))
       (LogAccess_Debug
         (over_limit_message (length (Notifications form3)) (MaxNotification (Core PushConf))) c)"
    by (simp add: pushHandler_over_limit)
  then show "reported_message (pushHandler ShouldBindWith qn PushConf req3 c) =
        Some (over_limit_message (length (Notifications form3))
                (MaxNotification (Core PushConf)))"
    and "engine (pushHandler ShouldBindWith qn PushConf req3 c) = engine c"
    by simp_all
next
  show "distinct [''Missing notifications field.'', ''Notifications field is empty.'',
             over_limit_message n limit]"
    using over_limit_not_missing [of n limit] over_limit_not_empty [of n limit]
    by (simp add: eq_commute)
qed

theorem empty_and_malformed_rejected_witness:
  "id (Inl ''unexpected EOF'' :: string + unit RequestPush) = Inl ''unexpected EOF'' \<and>
   reported_message
     (pushHandler id tally (ceiling_conf 100) (Inl ''unexpected EOF'') fresh_context) =
     Some ''Missing notifications field.'' \<and>
   engine (pushHandler id tally (ceiling_conf 100) (Inl ''unexpected EOF'') fresh_context) =
     engine fresh_context \<and>
   id (Inr (batch_of 0) :: string + unit RequestPush) = Inr (batch_of 0) \<and>
   Notifications (batch_of 0) = [] \<and>
   reported_message
     (pushHandler id tally (ceiling_conf 100) (Inr (batch_of 0)) fresh_context) =
     Some ''Notifications field is empty.'' \<and>
   engine (pushHandler id tally (ceiling_conf 100) (Inr (batch_of 0)) fresh_context) =
     engine fresh_context \<and>
   id (Inr (batch_of 101) :: string + unit RequestPush) = Inr (batch_of 101) \<and>
   Notifications (batch_of 101) \<noteq> [] \<and>
   int (length (Notifications (batch_of 101)))
     > sint (MaxNotification (Core (ceiling_conf 100))) \<and>
   reported_message
     (pushHandler id tally (ceiling_conf 100) (Inr (batch_of 101)) fresh_context) =
     Some ''Number of notifications(101) over limit(100)'' \<and>
   engine (pushHandler id tally (ceiling_conf 100) (Inr (batch_of 101)) fresh_context) =
     engine fresh_context \<and>
   distinct [''Missing notifications field.'', ''Notifications field is empty.'',
             ''Number of notifications(101) over limit(100)'']"
proof -
  have h1: "id (Inl ''unexpected EOF'' :: string + unit RequestPush) = Inl ''unexpected EOF''"
    and h2: "id (Inr (batch_of 0) :: string + unit RequestPush) = Inr (batch_of 0) \<and>
      Notifications (batch_of 0) = []"
    and h3: "id (Inr (batch_of 101) :: string + unit RequestPush) = Inr (batch_of 101) \<and>
      Notifications (batch_of 101) \<noteq> [] \<and>
      int (length (Notifications (batch_of 101)))
        > sint (MaxNotification (Core (ceiling_conf 100)))"
    by (simp_all add: batch_of_def ceiling_conf_def)
  have m: "over_limit_message (length (Notifications (batch_of 101)))
             (MaxNotification (Core (ceiling_conf 100))) =
           ''Number of notifications(101) over limit(100)''"
    and m': "over_limit_message 101 100 = ''Number of notifications(101) over limit(100)''"
    by (simp_all add: batch_of_def ceiling_conf_def over_limit_101_100)
  note t = empty_and_malformed_rejected
    [where ShouldBindWith = id and qn = tally and PushConf = "ceiling_conf 100"
       and c = fresh_context
       and ?req1.0 = "Inl ''unexpected EOF''" and err = "''unexpected EOF''"
       and ?req2.0 = "Inr (batch_of 0)" and ?form2.0 = "batch_of 0"
       and ?req3.0 = "Inr (batch_of 101)" and ?form3.0 = "batch_of 101"
       and n = 101 and limit = 100]
  show ?thesis
    using h1 h2 h3 t by (simp add: m m')
qed

subsection \<open>The responses\<close>

text \<open>
  C9: each of the three rejections is one aborted response of status 400 whose object has
  exactly the fields \<open>code\<close> and \<open>message\<close>, produced without calling
  \<open>queueNotification\<close> (the handler's result is the same for any two such functions and
  the engine is untouched); an accepted batch is one response of status 200 with
  \<open>success\<close> = \<open>ok\<close> and the counts and logs \<open>queueNotification\<close> returned.
\<close>

theorem pushHandler_responses:
  "(ShouldBindWith req1 = Inl err \<longrightarrow>
      rejected_with c ''Missing notifications field.''
        (pushHandler ShouldBindWith qn PushConf req1 c) \<and>
      pushHandler ShouldBindWith qn PushConf req1 c =
        pushHandler ShouldBindWith qn' PushConf req1 c) \<and>
   (ShouldBindWith req2 = Inr form2 \<and> Notifications form2 = [] \<longrightarrow>
      rejected_with c ''Notifications field is empty.''
        (pushHandler ShouldBindWith qn PushConf req2 c) \<and>
      pushHandler ShouldBindWith qn PushConf req2 c =
        pushHandler ShouldBindWith qn' PushConf req2 c) \<and>
   (ShouldBindWith req3 = Inr form3 \<and> Notifications form3 \<noteq> [] \<and>
    int (length (Notifications form3)) > sint (MaxNotification (Core PushConf)) \<longrightarrow>
      rejected_with c
        (over_limit_message (length (Notifications form3)) (MaxNotification (Core PushConf)))
        (pushHandler ShouldBindWith qn PushConf req3 c) \<and>
      pushHandler ShouldBindWith qn PushConf req3 c =
        pushHandler ShouldBindWith qn' PushConf req3 c) \<and>
   (ShouldBindWith req4 = Inr form4 \<and> Notifications form4 \<noteq> [] \<and>
    int (length (Notifications form4)) \<le> sint (MaxNotification (Core PushConf)) \<longrightarrow>
      accepted_with c (qn form4 (engine c))
        (pushHandler ShouldBindWith qn PushConf req4 c))"
proof (intro conjI impI)
  assume h: "ShouldBindWith req1 = Inl err"
  show "rejected_with c ''Missing notifications field.''
        (pushHandler ShouldBindWith qn PushConf req1 c)"
    using h by (simp add: pushHandler_malformed rejected_with_abortWithError)
  show "pushHandler ShouldBindWith qn PushConf req1 c =
        pushHandler ShouldBindWith qn' PushConf req1 c"
    using h by (simp add: pushHandler_malformed)
next
  assume h: "ShouldBindWith req2 = Inr form2 \<and> Notifications form2 = []"
  then have e: "\<And>q. pushHandler ShouldBindWith q PushConf req2 c =
      abortWithError StatusBadRequest ''Notifications field is empty.''
        (LogAccess_Debug ''Notifications field is empty.'' c)"
    by (simp add: pushHandler_empty)
  show "rejected_with c ''Notifications field is empty.''
        (pushHandler ShouldBindWith qn PushConf req2 c)"
    by (simp add: e rejected_with_abortWithError)
  show "pushHandler ShouldBindWith qn PushConf req2 c =
        pushHandler ShouldBindWith qn' PushConf req2 c"
    by (simp add: e)
next
  assume h: "ShouldBindWith req3 = Inr form3 \<and> Notifications form3 \<noteq> [] \<and>
    int (length (Notifications form3)) > sint (MaxNotification (Core PushConf))"
  then have e: "\<And>q. pushHandler ShouldBindWith q PushConf req3 c =
      abortWithError StatusBadRequest
       (over_limit_message (length (Notifications form3)) (MaxNotification (Core PushConf)))
       (LogAccess_Debug
         (over_limit_message (length (Notifications form3)) (MaxNotification (Core PushConf))) c)"
    by (simp add: pushHandler_over_limit)
  show "rejected_with c
        (over_limit_message (length (Notifications form3)) (MaxNotification (Core PushConf)))
        (pushHandler ShouldBindWith qn PushConf req3 c)"
    by (simp add: e rejected_with_abortWithError)
  show "pushHandler ShouldBindWith qn PushConf req3 c =
        pushHandler ShouldBindWith qn' PushConf req3 c"
    by (simp add: e)
next
  assume h: "ShouldBindWith req4 = Inr form4 \<and> Notifications form4 \<noteq> [] \<and>
    int (length (Notifications form4)) \<le> sint (MaxNotification (Core PushConf))"
  then show "accepted_with c (qn form4 (engine c))
        (pushHandler ShouldBindWith qn PushConf req4 c)"
    by (simp add: pushHandler_accepted [where form = form4] accepted_with_JSON)
qed

theorem pushHandler_responses_witness:
  "id (Inl ''unexpected EOF'' :: string + unit RequestPush) = Inl ''unexpected EOF'' \<and>
   rejected_with fresh_context ''Missing notifications field.''
     (pushHandler id tally (ceiling_conf 2) (Inl ''unexpected EOF'') fresh_context) \<and>
   id (Inr (batch_of 0) :: string + unit RequestPush) = Inr (batch_of 0) \<and>
   Notifications (batch_of 0) = [] \<and>
   rejected_with fresh_context ''Notifications field is empty.''
     (pushHandler id tally (ceiling_conf 2) (Inr (batch_of 0)) fresh_context) \<and>
   id (Inr (batch_of 3) :: string + unit RequestPush) = Inr (batch_of 3) \<and>
   Notifications (batch_of 3) \<noteq> [] \<and>
   int (length (Notifications (batch_of 3))) > sint (MaxNotification (Core (ceiling_conf 2))) \<and>
   rejected_with fresh_context ''Number of notifications(3) over limit(2)''
     (pushHandler id tally (ceiling_conf 2) (Inr (batch_of 3)) fresh_context) \<and>
   id (Inr (batch_of 2) :: string + unit RequestPush) = Inr (batch_of 2) \<and>
   Notifications (batch_of 2) \<noteq> [] \<and>
   int (length (Notifications (batch_of 2))) \<le> sint (MaxNotification (Core (ceiling_conf 2))) \<and>
   accepted_with fresh_context ((2, [(), ()]), 9)
     (pushHandler id tally (ceiling_conf 2) (Inr (batch_of 2)) fresh_context)"
proof -
  have h1: "id (Inl ''unexpected EOF'' :: string + unit RequestPush) = Inl ''unexpected EOF''"
    and h2: "id (Inr (batch_of 0) :: string + unit RequestPush) = Inr (batch_of 0) \<and>
      Notifications (batch_of 0) = []"
    and h3: "id (Inr (batch_of 3) :: string + unit RequestPush) = Inr (batch_of 3) \<and>
      Notifications (batch_of 3) \<noteq> [] \<and>
      int (length (Notifications (batch_of 3)))
        > sint (MaxNotification (Core (ceiling_conf 2)))"
    and h4: "id (Inr (batch_of 2) :: string + unit RequestPush) = Inr (batch_of 2) \<and>
      Notifications (batch_of 2) \<noteq> [] \<and>
      int (length (Notifications (batch_of 2)))
        \<le> sint (MaxNotification (Core (ceiling_conf 2)))"
    by (simp_all add: batch_of_def ceiling_conf_def)
  have m: "over_limit_message (length (Notifications (batch_of 3)))
             (MaxNotification (Core (ceiling_conf 2))) =
           ''Number of notifications(3) over limit(2)''"
    by (simp add: batch_of_def ceiling_conf_def over_limit_message_def Sprintf_d_def
          decimal.simps)
  have r: "tally (batch_of 2) (engine fresh_context) = ((2, [(), ()]), 9)"
    by (simp add: tally_def batch_of_def fresh_context_def numeral_2_eq_2)
  note t = pushHandler_responses
    [where ShouldBindWith = id and qn = tally and qn' = tally
       and PushConf = "ceiling_conf 2" and c = fresh_context
       and ?req1.0 = "Inl ''unexpected EOF''" and err = "''unexpected EOF''"
       and ?req2.0 = "Inr (batch_of 0)" and ?form2.0 = "batch_of 0"
       and ?req3.0 = "Inr (batch_of 3)" and ?form3.0 = "batch_of 3"
       and ?req4.0 = "Inr (batch_of 2)" and ?form4.0 = "batch_of 2"]
  show ?thesis
    using h1 h2 h3 h4 t by (simp add: m r)
qed

subsection \<open>The limit is inclusive\<close>

text \<open>
  C10: the over-limit test is strict. A parseable, non-empty batch of exactly
  \<open>MaxNotification\<close> notifications is accepted and given to \<open>queueNotification\<close>, one
  of \<open>MaxNotification + 1\<close> is rejected, and under a ceiling of zero or less every
  non-empty batch is rejected as over the limit.
\<close>

theorem limit_is_inclusive:
  "(ShouldBindWith req1 = Inr form1 \<and> Notifications form1 \<noteq> [] \<and>
    int (length (Notifications form1)) = sint (MaxNotification (Core PushConf)) \<longrightarrow>
      accepted_with c (qn form1 (engine c))
        (pushHandler ShouldBindWith qn PushConf req1 c)) \<and>
   (ShouldBindWith req2 = Inr form2 \<and> Notifications form2 \<noteq> [] \<and>
    sint (MaxNotification (Core PushConf2)) \<le> 0 \<longrightarrow>
      rejected_with c
        (over_limit_message (length (Notifications form2)) (MaxNotification (Core PushConf2)))
        (pushHandler ShouldBindWith qn PushConf2 req2 c)) \<and>
   (ShouldBindWith req3 = Inr form3 \<and> Notifications form3 \<noteq> [] \<and>
    int (length (Notifications form3)) = sint (MaxNotification (Core PushConf3)) + 1 \<longrightarrow>
      rejected_with c
        (over_limit_message (length (Notifications form3)) (MaxNotification (Core PushConf3)))
        (pushHandler ShouldBindWith qn PushConf3 req3 c))"
proof (intro conjI impI)
  assume "ShouldBindWith req1 = Inr form1 \<and> Notifications form1 \<noteq> [] \<and>
    int (length (Notifications form1)) = sint (MaxNotification (Core PushConf))"
  then show "accepted_with c (qn form1 (engine c))
        (pushHandler ShouldBindWith qn PushConf req1 c)"
    by (simp add: pushHandler_accepted [where form = form1] accepted_with_JSON)
next
  assume h: "ShouldBindWith req2 = Inr form2 \<and> Notifications form2 \<noteq> [] \<and>
    sint (MaxNotification (Core PushConf2)) \<le> 0"
  then have "0 < length (Notifications form2)"
    by simp
  with h have "int (length (Notifications form2)) > sint (MaxNotification (Core PushConf2))"
    by linarith
  with h show "rejected_with c
        (over_limit_message (length (Notifications form2)) (MaxNotification (Core PushConf2)))
        (pushHandler ShouldBindWith qn PushConf2 req2 c)"
    by (simp add: pushHandler_over_limit [where form = form2] rejected_with_abortWithError)
next
  assume h: "ShouldBindWith req3 = Inr form3 \<and> Notifications form3 \<noteq> [] \<and>
    int (length (Notifications form3)) = sint (MaxNotification (Core PushConf3)) + 1"
  then show "rejected_with c
        (over_limit_message (length (Notifications form3)) (MaxNotification (Core PushConf3)))
        (pushHandler ShouldBindWith qn PushConf3 req3 c)"
    by (simp add: pushHandler_over_limit [where form = form3] rejected_with_abortWithError)
qed

theorem limit_is_inclusive_witness:
  "id (Inr (batch_of 2) :: string + unit RequestPush) = Inr (batch_of 2) \<and>
   Notifications (batch_of 2) \<noteq> [] \<and>
   int (length (Notifications (batch_of 2))) = sint (MaxNotification (Core (ceiling_conf 2))) \<and>
   accepted_with fresh_context ((2, [(), ()]), 9)
     (pushHandler id tally (ceiling_conf 2) (Inr (batch_of 2)) fresh_context) \<and>
   id (Inr (batch_of 4) :: string + unit RequestPush) = Inr (batch_of 4) \<and>
   Notifications (batch_of 4) \<noteq> [] \<and>
   sint (MaxNotification (Core (ceiling_conf (- 5)))) \<le> 0 \<and>
   rejected_with fresh_context ''Number of notifications(4) over limit(-5)''
     (pushHandler id tally (ceiling_conf (- 5)) (Inr (batch_of 4)) fresh_context) \<and>
   id (Inr (batch_of 3) :: string + unit RequestPush) = Inr (batch_of 3) \<and>
   Notifications (batch_of 3) \<noteq> [] \<and>
   int (length (Notifications (batch_of 3))) =
     sint (MaxNotification (Core (ceiling_conf 2))) + 1 \<and>
   rejected_with fresh_context ''Number of notifications(3) over limit(2)''
     (pushHandler id tally (ceiling_conf 2) (Inr (batch_of 3)) fresh_context)"
proof -
  have h1: "id (Inr (batch_of 2) :: string + unit RequestPush) = Inr (batch_of 2) \<and>
      Notifications (batch_of 2) \<noteq> [] \<and>
      int (length (Notifications (batch_of 2))) =
        sint (MaxNotification (Core (ceiling_conf 2)))"
    and h2: "id (Inr (batch_of 4) :: string + unit RequestPush) = Inr (batch_of 4) \<and>
      Notifications (batch_of 4) \<noteq> [] \<and>
      sint (MaxNotification (Core (ceiling_conf (- 5)))) \<le> 0"
    and h3: "id (Inr (batch_of 3) :: string + unit RequestPush) = Inr (batch_of 3) \<and>
      Notifications (batch_of 3) \<noteq> [] \<and>
      int (length (Notifications (batch_of 3))) =
        sint (MaxNotification (Core (ceiling_conf 2))) + 1"
    by (simp_all add: batch_of_def ceiling_conf_def)
  have m: "over_limit_message (length (Notifications (batch_of 4)))
             (MaxNotification (Core (ceiling_conf (- 5)))) =
           ''Number of notifications(4) over limit(-5)''"
    and m': "over_limit_message (length (Notifications (batch_of 3)))
             (MaxNotification (Core (ceiling_conf 2))) =
           ''Number of notifications(3) over limit(2)''"
    by (simp_all add: batch_of_def ceiling_conf_def over_limit_message_def Sprintf_d_def
          decimal.simps)
  have r: "tally (batch_of 2) (engine fresh_context) = ((2, [(), ()]), 9)"
    by (simp add: tally_def batch_of_def fresh_context_def numeral_2_eq_2)
  note t = limit_is_inclusive
    [where ShouldBindWith = id and qn = tally and c = fresh_context
       and PushConf = "ceiling_conf 2" and ?PushConf2.0 = "ceiling_conf (- 5)"
       and ?PushConf3.0 = "ceiling_conf 2"
       and ?req1.0 = "Inr (batch_of 2)" and ?form1.0 = "batch_of 2"
       and ?req2.0 = "Inr (batch_of 4)" and ?form2.0 = "batch_of 4"
       and ?req3.0 = "Inr (batch_of 3)" and ?form3.0 = "batch_of 3"]
  show ?thesis
    using h1 h2 h3 t by (simp add: m m' r)
qed

section \<open>Verification of the dispatch engine\<close>

subsection \<open>Folding entries into Stats\<close>

lemma folded_Nil [simp]: "folded s [] s"
  by (simp add: folded_def count_status_def)

lemma folded_append:
  "folded s xs s' \<Longrightarrow> folded s' ys s'' \<Longrightarrow> folded s (xs @ ys) s''"
  by (simp add: folded_def count_status_def)

lemma folded_Cons:
  "folded s [x] s' \<Longrightarrow> folded s' ys s'' \<Longrightarrow> folded s (x # ys) s''"
  using folded_append [of s "[x]" s' ys s''] by simp

lemma count_status_total:
  "count_status Delivered entries + count_status Failed entries = length entries"
proof (induction entries)
  case Nil
  show ?case by (simp add: count_status_def)
next
  case (Cons l entries)
  then show ?case by (cases "status l") (simp_all add: count_status_def)
qed

subsection \<open>The attempt loop\<close>

lemma NextAction_Stop:
  "NextAction rc outcome count = Stop final \<Longrightarrow>
   final = Success \<or> (\<exists>r. final = PermanentFailure r)"
  by (auto simp: NextAction_def split: DeliveryOutcome.splits if_splits)

lemma attempt_Crashed:
  "send tok (payload n) (network e) = (Crashed, w') \<Longrightarrow>
   attempt rc send n tok e =
     (PermanentFailure InternalError,
      e\<lparr>network := w', invocations := invocations e @ [(platform n, tok)]\<rparr>)"
  by (subst attempt.simps) simp

lemma attempt_Stop:
  "send tok (payload n) (network e) = (Returned outcome, w') \<Longrightarrow>
   NextAction rc outcome (retry_count n) = Stop final \<Longrightarrow>
   attempt rc send n tok e =
     (final, e\<lparr>network := w', invocations := invocations e @ [(platform n, tok)]\<rparr>)"
  by (subst attempt.simps) simp

lemma attempt_RetryAfter:
  "send tok (payload n) (network e) = (Returned outcome, w') \<Longrightarrow>
   NextAction rc outcome (retry_count n) = RetryAfter delay \<Longrightarrow>
   attempt rc send n tok e =
     attempt rc send (n\<lparr>retry_count := Suc (retry_count n)\<rparr>) tok
       (e\<lparr>network := w', invocations := invocations e @ [(platform n, tok)],
          delays := delays e @ [delay]\<rparr>)"
  by (subst attempt.simps) simp

text \<open>An induction rule for the attempt loop with readable cases.\<close>

lemma attempt_cases_induct [case_names Crashed Stop RetryAfter]:
  fixes P :: "RetryConf \<Rightarrow> 'w Adapter \<Rightarrow> Notification \<Rightarrow> string \<Rightarrow> 'w Engine \<Rightarrow> bool"
  assumes "\<And>rc send n tok e w'.
      send tok (payload n) (network e) = (Crashed, w') \<Longrightarrow> P rc send n tok e"
    and "\<And>rc send n tok e outcome w' final.
      send tok (payload n) (network e) = (Returned outcome, w') \<Longrightarrow>
      NextAction rc outcome (retry_count n) = Stop final \<Longrightarrow> P rc send n tok e"
    and "\<And>rc send n tok e outcome w' delay.
      send tok (payload n) (network e) = (Returned outcome, w') \<Longrightarrow>
      NextAction rc outcome (retry_count n) = RetryAfter delay \<Longrightarrow>
      P rc send (n\<lparr>retry_count := Suc (retry_count n)\<rparr>) tok
        (e\<lparr>network := w', invocations := invocations e @ [(platform n, tok)],
           delays := delays e @ [delay]\<rparr>) \<Longrightarrow>
      P rc send n tok e"
  shows "P rc send n tok e"
proof (induction rc send n tok e rule: attempt.induct)
  case (1 rc send n tok e)
  show ?case
  proof (cases "send tok (payload n) (network e)")
    case (Pair res w')
    show ?thesis
    proof (cases res)
      case Crashed
      with Pair show ?thesis by (auto intro: assms(1))
    next
      case (Returned outcome)
      show ?thesis
      proof (cases "NextAction rc outcome (retry_count n)")
        case (Stop final)
        with Pair Returned show ?thesis by (auto intro: assms(2))
      next
        case (RetryAfter delay)
        have "P rc send (n\<lparr>retry_count := Suc (retry_count n)\<rparr>) tok
               (e\<lparr>network := w', invocations := invocations e @ [(platform n, tok)],
                  delays := delays e @ [delay]\<rparr>)"
          using "1" [OF Pair [symmetric] refl Returned RetryAfter] by simp
        with Pair Returned RetryAfter show ?thesis by (auto intro: assms(3))
      qed
    qed
  qed
qed

lemma stats_attempt: "stats (snd (attempt rc send n tok e)) = stats e"
proof (induction rc send n tok e rule: attempt_cases_induct)
  case (Crashed rc send n tok e w')
  then show ?case by (simp add: attempt_Crashed)
next
  case (Stop rc send n tok e outcome w' final)
  then show ?case by (simp add: attempt_Stop)
next
  case (RetryAfter rc send n tok e outcome w' delay)
  then show ?case by (simp add: attempt_RetryAfter)
qed

lemma attempt_terminal:
  "fst (attempt rc send n tok e) = Success \<or>
   (\<exists>r. fst (attempt rc send n tok e) = PermanentFailure r)"
proof (induction rc send n tok e rule: attempt_cases_induct)
  case (Crashed rc send n tok e w')
  then show ?case by (simp add: attempt_Crashed)
next
  case (Stop rc send n tok e outcome w' final)
  then show ?case using NextAction_Stop [of rc outcome "retry_count n" final]
    by (simp add: attempt_Stop)
next
  case (RetryAfter rc send n tok e outcome w' delay)
  then show ?case by (simp add: attempt_RetryAfter)
qed

subsection \<open>Terminal outcomes and workers\<close>

lemma fold_outcome_key [simp]:
  "notification_index (fst (fold_outcome idx tok outcome e)) = idx"
  "token (fst (fold_outcome idx tok outcome e)) = tok"
  by (cases outcome; simp)+

lemma fold_outcome_status:
  "status (fst (fold_outcome idx tok outcome e)) =
     (if outcome = Success then Delivered else Failed)"
  by (cases outcome) simp_all

lemma fold_outcome_frame [simp]:
  "network (snd (fold_outcome idx tok outcome e)) = network e"
  "invocations (snd (fold_outcome idx tok outcome e)) = invocations e"
  "delays (snd (fold_outcome idx tok outcome e)) = delays e"
  by (cases outcome; simp)+

lemma folded_fold_outcome:
  "folded (stats e) [fst (fold_outcome idx tok outcome e)]
     (stats (snd (fold_outcome idx tok outcome e)))"
  by (cases outcome)
     (simp_all add: folded_def count_status_def IncrementSucceeded_def IncrementFailed_def)

lemma record_unknown_Cons:
  "record_unknown idx (tok # toks) e =
     (fst (fold_outcome idx tok (PermanentFailure UnknownPlatform) e) #
        fst (record_unknown idx toks
               (snd (fold_outcome idx tok (PermanentFailure UnknownPlatform) e))),
      snd (record_unknown idx toks
             (snd (fold_outcome idx tok (PermanentFailure UnknownPlatform) e))))"
  by (simp add: case_prod_beta)

lemma send_all_Cons:
  "send_all rc send idx n (tok # toks) e =
     (fst (fold_outcome idx tok (fst (deliver rc send n tok e))
             (snd (deliver rc send n tok e))) #
        fst (send_all rc send idx n toks
               (snd (fold_outcome idx tok (fst (deliver rc send n tok e))
                       (snd (deliver rc send n tok e))))),
      snd (send_all rc send idx n toks
             (snd (fold_outcome idx tok (fst (deliver rc send n tok e))
                     (snd (deliver rc send n tok e))))))"
  by (simp add: case_prod_beta)

lemma keys_record_unknown:
  "entry_keys (fst (record_unknown idx toks e)) = map (Pair idx) toks"
  by (induction toks arbitrary: e) (simp_all add: entry_keys_def case_prod_beta)

lemma folded_record_unknown:
  "folded (stats e) (fst (record_unknown idx toks e)) (stats (snd (record_unknown idx toks e)))"
proof (induction toks arbitrary: e)
  case Nil
  show ?case by simp
next
  case (Cons tok toks)
  show ?case
    unfolding record_unknown_Cons fst_conv snd_conv
    by (rule folded_Cons [OF folded_fold_outcome Cons])
qed

lemma keys_send_all:
  "entry_keys (fst (send_all rc send idx n toks e)) = map (Pair idx) toks"
  by (induction toks arbitrary: e) (simp_all add: entry_keys_def case_prod_beta)

lemma stats_deliver: "stats (snd (deliver rc send n tok e)) = stats e"
  by (simp add: deliver_def stats_attempt)

lemma folded_send_all:
  "folded (stats e) (fst (send_all rc send idx n toks e))
     (stats (snd (send_all rc send idx n toks e)))"
proof (induction toks arbitrary: e)
  case Nil
  show ?case by simp
next
  case (Cons tok toks)
  have "folded (stats e)
          [fst (fold_outcome idx tok (fst (deliver rc send n tok e))
                  (snd (deliver rc send n tok e)))]
          (stats (snd (fold_outcome idx tok (fst (deliver rc send n tok e))
                         (snd (deliver rc send n tok e)))))"
    using folded_fold_outcome [of "snd (deliver rc send n tok e)" idx tok
        "fst (deliver rc send n tok e)"]
    by (simp add: stats_deliver)
  then show ?case
    unfolding send_all_Cons fst_conv snd_conv
    by (rule folded_Cons [OF _ Cons])
qed

lemma keys_worker:
  "entry_keys (fst (worker rc registry job e)) = job_keys job"
  by (simp add: worker_def job_keys_def keys_record_unknown keys_send_all
           split: prod.splits option.splits)

lemma folded_worker:
  "folded (stats e) (fst (worker rc registry job e)) (stats (snd (worker rc registry job e)))"
  by (simp add: worker_def folded_record_unknown folded_send_all
           split: prod.splits option.splits)

subsection \<open>Draining the queue\<close>

lemma drain_Nil: "queue e = [] \<Longrightarrow> drain rc registry e = ([], e)"
  by (subst drain.simps) simp

lemma drain_Cons:
  "queue e = job # rest \<Longrightarrow>
   drain rc registry e =
     (fst (worker rc registry job (e\<lparr>queue := rest\<rparr>)) @
        fst (drain rc registry (snd (worker rc registry job (e\<lparr>queue := rest\<rparr>)))),
      snd (drain rc registry (snd (worker rc registry job (e\<lparr>queue := rest\<rparr>)))))"
  by (subst drain.simps) (simp add: case_prod_beta)

lemma drain_summary:
  "queue (snd (drain rc registry e)) = [] \<and>
   entry_keys (fst (drain rc registry e)) = concat (map job_keys (queue e)) \<and>
   folded (stats e) (fst (drain rc registry e)) (stats (snd (drain rc registry e)))"
proof (induction q \<equiv> "queue e" arbitrary: e)
  case Nil
  then show ?case by (simp add: drain_Nil entry_keys_def)
next
  case (Cons job rest)
  let ?w = "worker rc registry job (e\<lparr>queue := rest\<rparr>)"
  have q: "queue e = job # rest"
    using Cons.hyps(2) by simp
  have "queue (snd ?w) = rest"
    using queue_worker [of rc registry job "e\<lparr>queue := rest\<rparr>"] by simp
  then have ih: "queue (snd (drain rc registry (snd ?w))) = [] \<and>
      entry_keys (fst (drain rc registry (snd ?w))) = concat (map job_keys rest) \<and>
      folded (stats (snd ?w)) (fst (drain rc registry (snd ?w)))
        (stats (snd (drain rc registry (snd ?w))))"
    using Cons.hyps(1) [of "snd ?w"] by simp
  have fw: "folded (stats e) (fst ?w) (stats (snd ?w))"
    using folded_worker [of "e\<lparr>queue := rest\<rparr>" rc registry job] by simp
  have kw: "entry_keys (fst ?w) = job_keys job"
    by (rule keys_worker)
  show ?case
    unfolding drain_Cons [OF q] fst_conv snd_conv
    using ih kw folded_append [OF fw] q
    by (simp add: entry_keys_def)
qed

subsection \<open>The entry point\<close>

lemma fold_enqueue:
  "fold enqueue jobs e = e\<lparr>queue := queue e @ jobs\<rparr>"
  by (induction jobs arbitrary: e) (simp_all add: enqueue_def)





subsection \<open>Retries\<close>

lemma attempt_exhausts:
  fixes send :: "'w Adapter"
  assumes "\<forall>tok pl w. \<exists>r. fst (send tok pl w) = Returned (RetryableFailure r)"
    and "retry_count n \<le> MaxRetry rc"
  shows "fst (attempt rc send n tok e) = PermanentFailure RetryExhausted \<and>
         invocations (snd (attempt rc send n tok e)) =
           invocations e @ replicate (Suc (MaxRetry rc - retry_count n)) (platform n, tok) \<and>
         delays (snd (attempt rc send n tok e)) =
           delays e @ map (backoff rc) [retry_count n..<MaxRetry rc]"
  using assms
proof (induction rc send n tok e rule: attempt_cases_induct)
  case (Crashed rc send n tok e w')
  from Crashed.prems(1) obtain r where
    "fst (send tok (payload n) (network e)) = Returned (RetryableFailure r)"
    by blast
  with Crashed.hyps show ?case by simp
next
  case (Stop rc send n tok e outcome w' final)
  from Stop.prems(1) obtain r where
    "fst (send tok (payload n) (network e)) = Returned (RetryableFailure r)"
    by blast
  with Stop.hyps(1) have o: "outcome = RetryableFailure r"
    by simp
  with Stop.hyps(2) have "\<not> retry_count n < MaxRetry rc"
    and f: "final = PermanentFailure RetryExhausted"
    by (auto simp: NextAction_def split: if_splits)
  with Stop.prems(2) have "retry_count n = MaxRetry rc"
    by simp
  moreover have "attempt rc send n tok e =
      (final, e\<lparr>network := w', invocations := invocations e @ [(platform n, tok)]\<rparr>)"
    using Stop.hyps by (simp add: attempt_Stop)
  ultimately show ?case
    using f by simp
next
  case (RetryAfter rc send n tok e outcome w' delay)
  from RetryAfter.prems(1) obtain r where
    "fst (send tok (payload n) (network e)) = Returned (RetryableFailure r)"
    by blast
  with RetryAfter.hyps(1) have o: "outcome = RetryableFailure r"
    by simp
  with RetryAfter.hyps(2) have lt: "retry_count n < MaxRetry rc"
    and d: "delay = backoff rc (retry_count n)"
    by (auto simp: NextAction_def split: if_splits)
  have s: "Suc (MaxRetry rc - retry_count n) = Suc (Suc (MaxRetry rc - Suc (retry_count n)))"
    using lt by simp
  have u: "[retry_count n..<MaxRetry rc] = retry_count n # [Suc (retry_count n)..<MaxRetry rc]"
    using lt by (simp add: upt_conv_Cons)
  have a: "attempt rc send n tok e =
      attempt rc send (n\<lparr>retry_count := Suc (retry_count n)\<rparr>) tok
        (e\<lparr>network := w', invocations := invocations e @ [(platform n, tok)],
           delays := delays e @ [delay]\<rparr>)"
    using RetryAfter.hyps by (simp add: attempt_RetryAfter)
  show ?case
    using RetryAfter.IH [OF RetryAfter.prems(1)] lt d
    unfolding a s u
    by (simp add: replicate_append_same)
qed

lemma attempt_first_outcome_final:
  assumes "send tok (payload n) (network e) = (Returned outcome, w')"
    and "outcome = Success \<or> outcome = PermanentFailure r"
  shows "attempt rc send n tok e =
     (outcome, e\<lparr>network := w', invocations := invocations e @ [(platform n, tok)]\<rparr>)"
proof -
  have "NextAction rc outcome (retry_count n) = Stop outcome"
    using assms(2) by (auto simp: NextAction_def)
  with assms(1) show ?thesis
    by (simp add: attempt_Stop)
qed

lemma send_all_single:
  "send_all rc send idx n [tok] e =
     ([fst (fold_outcome idx tok (fst (deliver rc send n tok e))
              (snd (deliver rc send n tok e)))],
      snd (fold_outcome idx tok (fst (deliver rc send n tok e))
             (snd (deliver rc send n tok e))))"
  by (simp add: case_prod_beta)

text \<open>
  C5: \<open>Success\<close> and \<open>PermanentFailure\<close> stop at once, in the policy and in the attempt
  loop; \<open>RetryableFailure\<close> yields \<open>RetryAfter\<close> while \<open>retry_count < MaxRetry\<close>, and
  the attempt is then repeated with \<open>retry_count\<close> incremented; from the ceiling on it
  stops as \<open>PermanentFailure{RetryExhausted}\<close>. So a delivery against an adapter that
  always returns \<open>RetryableFailure\<close> invokes the adapter exactly \<open>MaxRetry + 1\<close> times,
  waits the delays of the schedule for the counts \<open>0, \<dots>, MaxRetry - 1\<close>, and is
  recorded as one failed entry with the reason \<open>RetryExhausted\<close>.
\<close>

theorem retry_until_exhausted:
  "NextAction rc Success count = Stop Success \<and>
   NextAction rc (PermanentFailure r) count = Stop (PermanentFailure r) \<and>
   (count1 < MaxRetry rc \<longrightarrow>
      NextAction rc (RetryableFailure r) count1 = RetryAfter (backoff rc count1)) \<and>
   (MaxRetry rc \<le> count2 \<longrightarrow>
      NextAction rc (RetryableFailure r) count2 = Stop (PermanentFailure RetryExhausted)) \<and>
   (send tok (payload n) (network e) = (Returned (RetryableFailure r), w') \<and>
    retry_count n < MaxRetry rc \<longrightarrow>
      attempt rc send n tok e =
        attempt rc send (n\<lparr>retry_count := Suc (retry_count n)\<rparr>) tok
          (e\<lparr>network := w', invocations := invocations e @ [(platform n, tok)],
             delays := delays e @ [backoff rc (retry_count n)]\<rparr>)) \<and>
   (stopping tok (payload n) (network e) = (Returned outcome, w') \<and>
    (outcome = Success \<or> outcome = PermanentFailure r) \<longrightarrow>
      attempt rc stopping n tok e =
        (outcome, e\<lparr>network := w', invocations := invocations e @ [(platform n, tok)]\<rparr>)) \<and>
   ((\<forall>tok pl w. \<exists>r. fst (failing tok pl w) = Returned (RetryableFailure r)) \<longrightarrow>
      fst (deliver rc failing n tok e) = PermanentFailure RetryExhausted \<and>
      invocations (snd (deliver rc failing n tok e)) =
        invocations e @ replicate (MaxRetry rc + 1) (platform n, tok) \<and>
      delays (snd (deliver rc failing n tok e)) =
        delays e @ map (backoff rc) [0..<MaxRetry rc] \<and>
      fst (send_all rc failing idx n [tok] e) =
        [\<lparr>notification_index = idx, token = tok, status = Failed,
          error_message = Some (reason_text RetryExhausted)\<rparr>] \<and>
      stats (snd (send_all rc failing idx n [tok] e)) = IncrementFailed 1 (stats e))"
proof (intro conjI impI)
  show "NextAction rc Success count = Stop Success"
    by (simp add: NextAction_def)
  show "NextAction rc (PermanentFailure r) count = Stop (PermanentFailure r)"
    by (simp add: NextAction_def)
  show "NextAction rc (RetryableFailure r) count1 = RetryAfter (backoff rc count1)"
    if "count1 < MaxRetry rc"
    using that by (simp add: NextAction_def)
  show "NextAction rc (RetryableFailure r) count2 = Stop (PermanentFailure RetryExhausted)"
    if "MaxRetry rc \<le> count2"
    using that by (simp add: NextAction_def)
  show "attempt rc send n tok e =
        attempt rc send (n\<lparr>retry_count := Suc (retry_count n)\<rparr>) tok
          (e\<lparr>network := w', invocations := invocations e @ [(platform n, tok)],
             delays := delays e @ [backoff rc (retry_count n)]\<rparr>)"
    if "send tok (payload n) (network e) = (Returned (RetryableFailure r), w') \<and>
        retry_count n < MaxRetry rc"
    using that
    by (simp add: attempt_RetryAfter [where outcome = "RetryableFailure r"] NextAction_def)
  show "attempt rc stopping n tok e =
        (outcome, e\<lparr>network := w', invocations := invocations e @ [(platform n, tok)]\<rparr>)"
    if "stopping tok (payload n) (network e) = (Returned outcome, w') \<and>
        (outcome = Success \<or> outcome = PermanentFailure r)"
    using that by (simp add: attempt_first_outcome_final [where r = r])
next
  assume a: "\<forall>tok pl w. \<exists>r. fst (failing tok pl w) = Returned (RetryableFailure r)"
  have x: "fst (attempt rc failing (n\<lparr>retry_count := 0\<rparr>) tok e) =
             PermanentFailure RetryExhausted \<and>
           invocations (snd (attempt rc failing (n\<lparr>retry_count := 0\<rparr>) tok e)) =
             invocations e @
               replicate (Suc (MaxRetry rc - retry_count (n\<lparr>retry_count := 0\<rparr>)))
                 (platform (n\<lparr>retry_count := 0\<rparr>), tok) \<and>
           delays (snd (attempt rc failing (n\<lparr>retry_count := 0\<rparr>) tok e)) =
             delays e @ map (backoff rc) [retry_count (n\<lparr>retry_count := 0\<rparr>)..<MaxRetry rc]"
    by (rule attempt_exhausts [OF a]) simp
  show d1: "fst (deliver rc failing n tok e) = PermanentFailure RetryExhausted"
    using x by (simp add: deliver_def)
  show "invocations (snd (deliver rc failing n tok e)) =
        invocations e @ replicate (MaxRetry rc + 1) (platform n, tok)"
    using x by (simp add: deliver_def)
  show "delays (snd (deliver rc failing n tok e)) =
        delays e @ map (backoff rc) [0..<MaxRetry rc]"
    using x by (simp add: deliver_def)
  show "fst (send_all rc failing idx n [tok] e) =
        [\<lparr>notification_index = idx, token = tok, status = Failed,
          error_message = Some (reason_text RetryExhausted)\<rparr>]"
    by (subst send_all_single) (simp add: d1)
  show "stats (snd (send_all rc failing idx n [tok] e)) = IncrementFailed 1 (stats e)"
    by (subst send_all_single) (simp add: d1 stats_deliver)
qed

lemma sample_retries:
  "deliver sample_conf unreachable
     android_notification ''d'' idle_engine =
   (PermanentFailure RetryExhausted,
    \<lparr>stats = \<lparr>submitted = 10, succeeded = 6, failed = 4\<rparr>, queue = [], network = 3,
     invocations = [(PlatformAndroid, ''d''), (PlatformAndroid, ''d''), (PlatformAndroid, ''d'')],
     delays = [1, 2]\<rparr>)"
  by (simp add: sample_conf_def idle_engine_def android_notification_def deliver_def
       attempt.simps unreachable_def NextAction_def bounded_exponential_def)

theorem retry_until_exhausted_witness:
  "(0::nat) < MaxRetry sample_conf \<and>
   NextAction sample_conf (RetryableFailure Timeout) 0 = RetryAfter (backoff sample_conf 0) \<and>
   MaxRetry sample_conf \<le> 2 \<and>
   NextAction sample_conf (RetryableFailure Timeout) 2 =
     Stop (PermanentFailure RetryExhausted) \<and>
   unreachable ''d'' (payload android_notification) (network idle_engine) =
     (Returned (RetryableFailure Timeout), Suc 0) \<and>
   retry_count android_notification < MaxRetry sample_conf \<and>
   reliable ''d'' (payload android_notification) (network idle_engine) =
     (Returned Success, Suc 0) \<and>
   attempt sample_conf reliable android_notification ''d'' idle_engine =
     (Success,
      idle_engine\<lparr>network := Suc 0,
        invocations := invocations idle_engine @ [(platform android_notification, ''d'')]\<rparr>) \<and>
   (\<forall>tok pl w. \<exists>r. fst (unreachable tok pl w) = Returned (RetryableFailure r)) \<and>
   fst (deliver sample_conf unreachable android_notification ''d'' idle_engine) =
     PermanentFailure RetryExhausted \<and>
   length (invocations
     (snd (deliver sample_conf unreachable android_notification ''d'' idle_engine))) = 3 \<and>
   network (snd (deliver sample_conf unreachable android_notification ''d'' idle_engine)) = 3 \<and>
   delays (snd (deliver sample_conf unreachable android_notification ''d'' idle_engine)) =
     [1, 2]"
proof -
  have h1: "(0::nat) < MaxRetry sample_conf"
    and h2: "MaxRetry sample_conf \<le> 2"
    and h3: "unreachable ''d'' (payload android_notification) (network idle_engine) =
        (Returned (RetryableFailure Timeout), Suc 0) \<and>
      retry_count android_notification < MaxRetry sample_conf"
    and h4: "reliable ''d'' (payload android_notification) (network idle_engine) =
        (Returned Success, Suc 0) \<and>
      (Success = Success \<or> Success = PermanentFailure Timeout)"
    and h5: "\<forall>tok pl w. \<exists>r. fst (unreachable tok pl w) = Returned (RetryableFailure r)"
    by (simp_all add: sample_conf_def unreachable_def reliable_def idle_engine_def
          android_notification_def)
  note t = retry_until_exhausted
    [where rc = sample_conf and r = Timeout and count = 0 and ?count1.0 = 0 and ?count2.0 = 2
       and send = unreachable and stopping = reliable and failing = unreachable
       and tok = "''d''" and n = android_notification and e = idle_engine and w' = "Suc 0"
       and outcome = Success and idx = 0]
  from t h1 have a: "NextAction sample_conf (RetryableFailure Timeout) 0 =
      RetryAfter (backoff sample_conf 0)"
    by blast
  from t h2 have b: "NextAction sample_conf (RetryableFailure Timeout) 2 =
      Stop (PermanentFailure RetryExhausted)"
    by blast
  from t h4 have c: "attempt sample_conf reliable android_notification ''d'' idle_engine =
     (Success,
      idle_engine\<lparr>network := Suc 0,
        invocations := invocations idle_engine @ [(platform android_notification, ''d'')]\<rparr>)"
    by blast
  from t h5 have d: "fst (deliver sample_conf unreachable android_notification ''d''
      idle_engine) = PermanentFailure RetryExhausted"
    by blast
  show ?thesis
    using h1 h2 h3 h4 h5 a b c d by (simp add: sample_retries)
qed

subsection \<open>The example scenario\<close>

lemma sample_run:
  "queueNotification sample_conf sample_registry sample_batch idle_engine =
     ((\<lparr>success = 2, failure = 1\<rparr>,
       [\<lparr>notification_index = 0, token = ''a'', status = Delivered, error_message = None\<rparr>,
        \<lparr>notification_index = 0, token = ''b'', status = Delivered, error_message = None\<rparr>,
        \<lparr>notification_index = 1, token = ''c'', status = Failed,
          error_message = Some ''UnknownPlatform''\<rparr>]),
      \<lparr>stats = \<lparr>submitted = 13, succeeded = 8, failed = 5\<rparr>, queue = [], network = 2,
       invocations = [(PlatformIOS, ''a''), (PlatformIOS, ''b'')], delays = []\<rparr>)"
  by (simp add: sample_conf_def sample_registry_def sample_batch_def idle_engine_def
       ios_notification_def stray_notification_def queueNotification_def drain.simps worker_def enqueue_def total_tokens_def
       IncrementSubmitted_def IncrementSucceeded_def IncrementFailed_def
       deliver_def attempt.simps reliable_def NextAction_def)

lemma sample_stats: "stats idle_engine = \<lparr>submitted = 10, succeeded = 6, failed = 4\<rparr>"
  by (simp add: idle_engine_def)

subsection \<open>Accepted batches\<close>





subsection \<open>Unknown platforms\<close>

lemma record_unknown_entries:
  "fst (record_unknown idx toks e) =
     map (\<lambda>tok. \<lparr>notification_index = idx, token = tok, status = Failed,
                  error_message = Some (reason_text UnknownPlatform)\<rparr>) toks"
  by (induction toks arbitrary: e) (simp_all add: case_prod_beta)

lemma record_unknown_frame:
  "invocations (snd (record_unknown idx toks e)) = invocations e \<and>
   network (snd (record_unknown idx toks e)) = network e \<and>
   delays (snd (record_unknown idx toks e)) = delays e \<and>
   stats (snd (record_unknown idx toks e)) = IncrementFailed (length toks) (stats e)"
proof (induction toks arbitrary: e)
  case Nil
  show ?case by (simp add: IncrementFailed_def)
next
  case (Cons tok toks)
  show ?case
    unfolding record_unknown_Cons snd_conv
    using Cons [of "snd (fold_outcome idx tok (PermanentFailure UnknownPlatform) e)"]
    by (simp add: IncrementFailed_def)
qed

text \<open>
  C6: a job whose platform has no registered adapter yields, for each of its tokens, a
  failed entry with the reason \<open>UnknownPlatform\<close>, counted as failed; no adapter is
  invoked and the network is not touched; and the worker loop goes on with the rest of
  the queue until it is empty.
\<close>

theorem unknown_platform_recorded:
  assumes "registry (platform n) = None"
  shows "fst (worker rc registry (idx, n) e) =
           map (\<lambda>tok. \<lparr>notification_index = idx, token = tok, status = Failed,
                        error_message = Some (reason_text UnknownPlatform)\<rparr>) (tokens n) \<and>
         invocations (snd (worker rc registry (idx, n) e)) = invocations e \<and>
         network (snd (worker rc registry (idx, n) e)) = network e \<and>
         delays (snd (worker rc registry (idx, n) e)) = delays e \<and>
         stats (snd (worker rc registry (idx, n) e)) =
           IncrementFailed (length (tokens n)) (stats e) \<and>
         drain rc registry (e\<lparr>queue := (idx, n) # rest\<rparr>) =
           (fst (worker rc registry (idx, n) (e\<lparr>queue := rest\<rparr>)) @
              fst (drain rc registry (snd (worker rc registry (idx, n) (e\<lparr>queue := rest\<rparr>)))),
            snd (drain rc registry (snd (worker rc registry (idx, n) (e\<lparr>queue := rest\<rparr>))))) \<and>
         queue (snd (worker rc registry (idx, n) (e\<lparr>queue := rest\<rparr>))) = rest \<and>
         entry_keys (fst (drain rc registry (e\<lparr>queue := (idx, n) # rest\<rparr>))) =
           job_keys (idx, n) @ concat (map job_keys rest) \<and>
         queue (snd (drain rc registry (e\<lparr>queue := (idx, n) # rest\<rparr>))) = []"
proof -
  have w: "worker rc registry (idx, n) e' = record_unknown idx (tokens n) e'" for e'
    using assms by (simp add: worker_def)
  have d: "drain rc registry (e\<lparr>queue := (idx, n) # rest\<rparr>) =
           (fst (worker rc registry (idx, n) (e\<lparr>queue := rest\<rparr>)) @
              fst (drain rc registry (snd (worker rc registry (idx, n) (e\<lparr>queue := rest\<rparr>)))),
            snd (drain rc registry (snd (worker rc registry (idx, n) (e\<lparr>queue := rest\<rparr>)))))"
    using drain_Cons [of "e\<lparr>queue := (idx, n) # rest\<rparr>" "(idx, n)" rest rc registry]
    by simp
  have q: "queue (snd (worker rc registry (idx, n) (e\<lparr>queue := rest\<rparr>))) = rest"
    using queue_worker [of rc registry "(idx, n)" "e\<lparr>queue := rest\<rparr>"] by simp
  show ?thesis
    using record_unknown_frame [of idx "tokens n" e] d q
      drain_summary [of rc registry "e\<lparr>queue := (idx, n) # rest\<rparr>"]
    by (simp add: w record_unknown_entries)
qed

lemma sample_unknown:
  "drain sample_conf sample_registry
     (idle_engine\<lparr>queue := [(0, stray_notification), (Suc 0, ios_notification)]\<rparr>) =
   ([\<lparr>notification_index = 0, token = ''c'', status = Failed,
       error_message = Some ''UnknownPlatform''\<rparr>,
     \<lparr>notification_index = Suc 0, token = ''a'', status = Delivered,
       error_message = None\<rparr>,
     \<lparr>notification_index = Suc 0, token = ''b'', status = Delivered,
       error_message = None\<rparr>],
    \<lparr>stats = \<lparr>submitted = 10, succeeded = 8, failed = 5\<rparr>, queue = [], network = 2,
     invocations = [(PlatformIOS, ''a''), (PlatformIOS, ''b'')], delays = []\<rparr>)"
  by (simp add: sample_conf_def sample_registry_def idle_engine_def
       ios_notification_def stray_notification_def
       drain.simps worker_def IncrementSucceeded_def IncrementFailed_def
       deliver_def attempt.simps reliable_def NextAction_def)

lemma sample_unknown_worker:
  "worker sample_conf sample_registry (0, stray_notification) idle_engine =
   ([\<lparr>notification_index = 0, token = ''c'', status = Failed,
       error_message = Some ''UnknownPlatform''\<rparr>],
    \<lparr>stats = \<lparr>submitted = 10, succeeded = 6, failed = 5\<rparr>, queue = [], network = 0,
     invocations = [], delays = []\<rparr>)"
  by (simp add: sample_registry_def idle_engine_def stray_notification_def worker_def
       IncrementFailed_def)

theorem unknown_platform_recorded_witness:
  "sample_registry (platform stray_notification) = None \<and>
   fst (worker sample_conf sample_registry (0, stray_notification) idle_engine) =
     [\<lparr>notification_index = 0, token = ''c'', status = Failed,
       error_message = Some ''UnknownPlatform''\<rparr>] \<and>
   invocations (snd (worker sample_conf sample_registry (0, stray_notification) idle_engine)) =
     invocations idle_engine \<and>
   network (snd (worker sample_conf sample_registry (0, stray_notification) idle_engine)) =
     network idle_engine \<and>
   stats idle_engine = \<lparr>submitted = 10, succeeded = 6, failed = 4\<rparr> \<and>
   stats (snd (worker sample_conf sample_registry (0, stray_notification) idle_engine)) =
     \<lparr>submitted = 10, succeeded = 6, failed = 5\<rparr> \<and>
   entry_keys (fst (drain sample_conf sample_registry
     (idle_engine\<lparr>queue := [(0, stray_notification), (Suc 0, ios_notification)]\<rparr>))) =
     [(0, ''c''), (Suc 0, ''a''), (Suc 0, ''b'')]"
proof -
  have h: "sample_registry (platform stray_notification) = None"
    by (simp add: sample_registry_def stray_notification_def)
  note t = unknown_platform_recorded
    [where registry = sample_registry and rc = sample_conf and idx = 0 and e = idle_engine
       and n = stray_notification and rest = "[(Suc 0, ios_notification)]", OF h]
  from t have
    "invocations (snd (worker sample_conf sample_registry (0, stray_notification) idle_engine)) =
       invocations idle_engine"
    and "network (snd (worker sample_conf sample_registry (0, stray_notification) idle_engine)) =
       network idle_engine"
    by blast+
  with h show ?thesis
    by (simp add: sample_unknown sample_unknown_worker sample_stats entry_keys_def)
qed

subsection \<open>Stats only grow\<close>

lemma folded_stats_le: "folded s entries s' \<Longrightarrow> stats_le s s'"
  by (simp add: folded_def stats_le_def)

lemma stats_queueNotification:
  "\<exists>entries. folded (IncrementSubmitted (total_tokens (Notifications form)) (stats e)) entries
      (stats (snd (queueNotification rc registry form e)))"
proof -
  let ?e2 = "e\<lparr>queue := queue e @ enumerate 0 (Notifications form),
               stats := IncrementSubmitted (total_tokens (Notifications form)) (stats e)\<rparr>"
  have "stats (snd (queueNotification rc registry form e)) =
        stats (snd (drain rc registry ?e2))"
    by (simp add: queueNotification_def fold_enqueue Let_def case_prod_beta)
  then show ?thesis
    using drain_summary [of rc registry ?e2] by auto
qed

text \<open>
  C7: no engine operation lowers a Stats counter: the three increments, enqueueing, a
  delivery with all its retries (which leaves Stats as it is), folding a terminal
  outcome, a worker's job, draining the queue and \<open>queueNotification\<close>. One
  (notification, token) delivery, however often retried, adds nothing to \<open>submitted\<close>
  and exactly one to \<open>succeeded + failed\<close>; and \<open>queueNotification\<close> adds to
  \<open>submitted\<close> the number of tokens of the batch, whatever the adapters do.
\<close>

theorem stats_only_grow:
  "stats_le s (IncrementSubmitted k s) \<and>
   stats_le s (IncrementSucceeded k s) \<and>
   stats_le s (IncrementFailed k s) \<and>
   stats (enqueue job e) = stats e \<and>
   stats (snd (deliver rc send n tok e)) = stats e \<and>
   stats_le (stats e) (stats (snd (fold_outcome idx tok outcome e))) \<and>
   stats_le (stats e) (stats (snd (worker rc registry job e))) \<and>
   stats_le (stats e) (stats (snd (drain rc registry e))) \<and>
   stats_le (stats e) (stats (snd (queueNotification rc registry form e))) \<and>
   submitted (stats (snd (send_all rc send idx n [tok] e))) = submitted (stats e) \<and>
   succeeded (stats (snd (send_all rc send idx n [tok] e))) +
     failed (stats (snd (send_all rc send idx n [tok] e))) =
     succeeded (stats e) + failed (stats e) + 1 \<and>
   submitted (stats (snd (queueNotification rc registry form e))) =
     submitted (stats e) + total_tokens (Notifications form)"
proof (intro conjI)
  show "stats_le s (IncrementSubmitted k s)"
    by (simp add: stats_le_def IncrementSubmitted_def)
  show "stats_le s (IncrementSucceeded k s)"
    by (simp add: stats_le_def IncrementSucceeded_def)
  show "stats_le s (IncrementFailed k s)"
    by (simp add: stats_le_def IncrementFailed_def)
  show "stats (enqueue job e) = stats e"
    by (simp add: enqueue_def)
  show "stats (snd (deliver rc send n tok e)) = stats e"
    by (rule stats_deliver)
  show "stats_le (stats e) (stats (snd (fold_outcome idx tok outcome e)))"
    by (rule folded_stats_le [OF folded_fold_outcome])
  show "stats_le (stats e) (stats (snd (worker rc registry job e)))"
    by (rule folded_stats_le [OF folded_worker])
  show "stats_le (stats e) (stats (snd (drain rc registry e)))"
    using drain_summary [of rc registry e] by (auto intro: folded_stats_le)
  obtain entries where
    q: "folded (IncrementSubmitted (total_tokens (Notifications form)) (stats e)) entries
          (stats (snd (queueNotification rc registry form e)))"
    using stats_queueNotification by blast
  then show "stats_le (stats e) (stats (snd (queueNotification rc registry form e)))"
    by (simp add: folded_def stats_le_def IncrementSubmitted_def)
  show "submitted (stats (snd (queueNotification rc registry form e))) =
     submitted (stats e) + total_tokens (Notifications form)"
    using q by (simp add: folded_def IncrementSubmitted_def)
  have f: "folded (stats e) (fst (send_all rc send idx n [tok] e))
             (stats (snd (send_all rc send idx n [tok] e)))"
    by (rule folded_send_all)
  have l: "length (fst (send_all rc send idx n [tok] e)) = 1"
    by (subst send_all_single) simp
  show "submitted (stats (snd (send_all rc send idx n [tok] e))) = submitted (stats e)"
    using f by (simp add: folded_def)
  show "succeeded (stats (snd (send_all rc send idx n [tok] e))) +
     failed (stats (snd (send_all rc send idx n [tok] e))) =
     succeeded (stats e) + failed (stats e) + 1"
    using f l count_status_total [of "fst (send_all rc send idx n [tok] e)"]
    by (simp add: folded_def)
qed

lemma sample_retried_token:
  "stats (snd (send_all sample_conf unreachable 0
     android_notification [''d''] idle_engine)) = \<lparr>submitted = 10, succeeded = 6, failed = 5\<rparr> \<and>
   length (invocations (snd (send_all sample_conf unreachable 0
     android_notification [''d''] idle_engine))) = 3"
  by (simp add: sample_retries IncrementFailed_def)

theorem stats_only_grow_witness:
  "stats_le (stats idle_engine)
     (stats (snd (queueNotification sample_conf sample_registry sample_batch idle_engine))) \<and>
   stats idle_engine = \<lparr>submitted = 10, succeeded = 6, failed = 4\<rparr> \<and>
   stats (snd (queueNotification sample_conf sample_registry sample_batch idle_engine)) =
     \<lparr>submitted = 13, succeeded = 8, failed = 5\<rparr> \<and>
   length (invocations (snd (send_all sample_conf unreachable 0 android_notification
     [''d''] idle_engine))) = 3 \<and>
   submitted (stats (snd (send_all sample_conf unreachable 0 android_notification
     [''d''] idle_engine))) = submitted (stats idle_engine) \<and>
   stats (snd (send_all sample_conf unreachable 0 android_notification
     [''d''] idle_engine)) = \<lparr>submitted = 10, succeeded = 6, failed = 5\<rparr>"
proof -
  note t = stats_only_grow
    [where e = idle_engine and rc = sample_conf and registry = sample_registry
       and form = sample_batch and s = "stats idle_engine" and k = 3
       and job = "(0, android_notification)" and send = unreachable
       and n = android_notification and tok = "''d''" and idx = 0 and outcome = Success]
  from t have
    "stats_le (stats idle_engine)
       (stats (snd (queueNotification sample_conf sample_registry sample_batch idle_engine)))"
    and "submitted (stats (snd (send_all sample_conf unreachable 0 android_notification
       [''d''] idle_engine))) = submitted (stats idle_engine)"
    by blast+
  then show ?thesis
    by (simp add: sample_run sample_retried_token sample_stats del: send_all.simps)
qed

end
